theory Spec2Isabelle
  imports Main "HOL-Library.Sublist"
begin

section \<open>JavaScript strings and sets\<close>

text \<open>
  Strings are byte strings. \<open>String.prototype.includes\<close> and \<open>startsWith\<close> search for
  a contiguous occurrence.
\<close>

fun str_includes :: "string \<Rightarrow> string \<Rightarrow> bool" where
  "str_includes [] sub = (sub = [])"
| "str_includes (c # cs) sub = (prefix sub (c # cs) \<or> str_includes cs sub)"

definition startsWith :: "string \<Rightarrow> string \<Rightarrow> bool" where
  "startsWith s p = prefix p s"

text \<open>
  A JavaScript \<open>Set<string>\<close> iterates in insertion order, and \<open>Array.from\<close> reads
  it in that order: it is the list of its elements in the order they were first added.
\<close>

definition Set_has :: "string list \<Rightarrow> string \<Rightarrow> bool" where
  "Set_has S x = (x \<in> set S)"

definition Set_add :: "string \<Rightarrow> string list \<Rightarrow> string list" where
  "Set_add x S = (if Set_has S x then S else S @ [x])"

definition new_Set :: "string list \<Rightarrow> string list" where
  "new_Set xs = foldl (\<lambda>S x. Set_add x S) [] xs"

section \<open>Progress record and run statistics\<close>

record MigrationProgress =
  lastUpdated :: string
  totalFiles :: nat
  migratedCount :: nat
  migratedFiles :: "string list"

record ErrorRecord =
  e_file :: string
  e_error :: string
  e_timestamp :: string

record stats =
  total :: nat
  completed :: nat
  failed :: nat
  skipped :: nat
  errors :: "ErrorRecord list"

section \<open>The environment of a run\<close>

text \<open>
  What one per-item task meets: \<open>readFile\<close> of the piece rejects, or the read succeeds
  and \<open>context.upload\<close> rejects, or the upload resolves with a piece CID. The string
  of a failure is \<open>errorMessage\<close> of the catch block.
\<close>

datatype attempt = ReadFails string | UploadFails string | UploadOk string

text \<open>
  Console output: the messages of the source that the properties below read, one
  constructor each (per-item lines, the scan result of lines 195-197, the notice of
  line 200, the final report of lines 303-310 with its five counts, the messages of the
  error log and of the shutdown handler).
\<close>

datatype msg =
    ItemUploaded string string
  | ItemAlreadyMigrated string
  | ItemSkipped string
  | ItemFailed string string
  | ScanResult nat nat nat
  | AllAlreadyMigrated
  | MigrationComplete nat nat nat nat nat
  | ErrorLogSaved
  | ShuttingDownGracefully
  | ProgressSavedSafeToExit
  | ForceKilling

text \<open>
  What a run does to the outside, in the order it does it. The upload of a piece is
  recorded when its task is folded in.
\<close>

datatype event =
    ReaddirCalled string
  | UploadCalled string
  | ProgressSaved MigrationProgress
  | ErrorLogWritten "ErrorRecord list"
  | Printed msg

text \<open>
  The environment: the variables of \<open>process.env\<close> the program reads, the result of
  \<open>detectRpcEndpoint\<close>, the files of the working directory, the listing
  \<open>readdir\<close> gives for a path (\<open>None\<close> when it rejects), whether the two SDK
  calls reject, what each piece's task meets, the instant at which each task settles
  (tasks of a batch are folded in the order they settle) and the wall clock, read by
  the number of events so far.
\<close>

record world =
  env_PRIVATE_KEY :: "string option"
  env_PROVIDER_ID :: "string option"
  env_SOURCE_PATH :: "string option"
  env_CONCURRENCY :: "string option"
  env_BATCH_SIZE :: "string option"
  rpc_isLocal :: bool
  disk :: "string \<rightharpoonup> string"
  directory :: "string \<rightharpoonup> string list"
  sdk_create :: "string option"
  sdk_createContext :: "string option"
  attempt_of :: "string \<Rightarrow> attempt"
  finish_time :: "string \<Rightarrow> nat"
  clock :: "nat \<Rightarrow> string"

text \<open>
  The mutable state of a run: \<open>stats\<close>, \<open>progress\<close>, the files of the working
  directory and the trace of events so far.
\<close>

record run_state =
  st_stats :: stats
  st_progress :: MigrationProgress
  st_disk :: "string \<rightharpoonup> string"
  st_trace :: "event list"

definition now :: "world \<Rightarrow> run_state \<Rightarrow> string" where
  "now w st = clock w (length (st_trace st))"

definition emit :: "event \<Rightarrow> run_state \<Rightarrow> run_state" where
  "emit e st = st\<lparr>st_trace := st_trace st @ [e]\<rparr>"

section \<open>The per-item task\<close>

definition is_duplicate :: "string \<Rightarrow> bool" where
  "is_duplicate errorMessage =
     (str_includes errorMessage ''duplicate subPieceCid'' \<or>
      str_includes errorMessage ''Must add at least one piece'')"

definition is_tooLarge :: "string \<Rightarrow> bool" where
  "is_tooLarge errorMessage = str_includes errorMessage ''exceeds maximum allowed size''"

text \<open>The try block after a resolved upload (lines 236-247).\<close>

definition task_ok :: "string \<Rightarrow> string \<Rightarrow> run_state \<Rightarrow> run_state" where
  "task_ok f cid st =
     (let st = emit (Printed (ItemUploaded f cid)) st;
          st = st\<lparr>st_stats := (st_stats st)\<lparr>completed := completed (st_stats st) + 1\<rparr>\<rparr>;
          st = st\<lparr>st_progress := (st_progress st)
                 \<lparr>migratedFiles := Set_add f (migratedFiles (st_progress st))\<rparr>\<rparr>;
          st = st\<lparr>st_progress := (st_progress st)
                 \<lparr>migratedCount := migratedCount (st_progress st) + 1\<rparr>\<rparr>
      in st)"

text \<open>The catch block (lines 248-289).\<close>

definition task_catch :: "world \<Rightarrow> string \<Rightarrow> string \<Rightarrow> run_state \<Rightarrow> run_state" where
  "task_catch w f errorMessage st =
     (if is_duplicate errorMessage then
        (let st = emit (Printed (ItemAlreadyMigrated f)) st;
             st = st\<lparr>st_stats := (st_stats st)\<lparr>completed := completed (st_stats st) + 1\<rparr>\<rparr>;
             st = st\<lparr>st_progress := (st_progress st)
                    \<lparr>migratedFiles := Set_add f (migratedFiles (st_progress st))\<rparr>\<rparr>;
             st = st\<lparr>st_progress := (st_progress st)
                    \<lparr>migratedCount := migratedCount (st_progress st) + 1\<rparr>\<rparr>
         in st)
      else if is_tooLarge errorMessage then
        (let st = emit (Printed (ItemSkipped f)) st;
             st = st\<lparr>st_progress := (st_progress st)
                    \<lparr>migratedFiles := Set_add f (migratedFiles (st_progress st))\<rparr>\<rparr>;
             st = st\<lparr>st_stats := (st_stats st)\<lparr>failed := failed (st_stats st) + 1\<rparr>\<rparr>;
             st = st\<lparr>st_stats := (st_stats st)\<lparr>errors := errors (st_stats st) @
                    [\<lparr>e_file = f, e_error = ''FILE_TOO_LARGE: '' @ errorMessage,
                      e_timestamp = now w st\<rparr>]\<rparr>\<rparr>
         in st)
      else
        (let st = st\<lparr>st_stats := (st_stats st)\<lparr>failed := failed (st_stats st) + 1\<rparr>\<rparr>;
             st = st\<lparr>st_stats := (st_stats st)\<lparr>errors := errors (st_stats st) @
                    [\<lparr>e_file = f, e_error = errorMessage, e_timestamp = now w st\<rparr>]\<rparr>\<rparr>;
             st = emit (Printed (ItemFailed f errorMessage)) st
         in st))"

text \<open>One task (lines 223-290): read the piece, upload it, fold the outcome in.\<close>

definition task :: "world \<Rightarrow> string \<Rightarrow> run_state \<Rightarrow> run_state" where
  "task w f st =
     (case attempt_of w f of
        ReadFails errorMessage \<Rightarrow> task_catch w f errorMessage st
      | UploadFails errorMessage \<Rightarrow> task_catch w f errorMessage (emit (UploadCalled f) st)
      | UploadOk cid \<Rightarrow> task_ok f cid (emit (UploadCalled f) st))"

section \<open>JSON\<close>

text \<open>
  \<open>JSON.parse\<close> and \<open>JSON.stringify\<close> belong to the language, not to the
  repository; the progress file passes through both, so they are modelled here: the
  JSON grammar of ECMA-404 over byte strings. A number keeps its lexeme (no floating
  point is involved), and a \<open>\u\<close> escape is decoded modulo 256.
\<close>

datatype json =
    JNull
  | JBool bool
  | JNumber string
  | JString string
  | JArray "json list"
  | JObject "(string \<times> json) list"

datatype token =
    TLBrace | TRBrace | TLBracket | TRBracket | TColon | TComma
  | TString string | TNumber string | TTrue | TFalse | TNull

definition is_ws :: "char \<Rightarrow> bool" where
  "is_ws c = (c = CHR '' '' \<or> c = CHR 0x09 \<or> c = CHR 0x0A \<or> c = CHR 0x0D)"

definition is_digit :: "char \<Rightarrow> bool" where
  "is_digit c = (c \<in> set ''0123456789'')"

definition digit_val :: "char \<Rightarrow> nat" where
  "digit_val c = of_char c - 48"

definition hex_val :: "char \<Rightarrow> nat option" where
  "hex_val c =
     (if is_digit c then Some (digit_val c)
      else if c \<in> set ''abcdef'' then Some (of_char c - 87)
      else if c \<in> set ''ABCDEF'' then Some (of_char c - 55)
      else None)"

definition unescape :: "char \<Rightarrow> char option" where
  "unescape e =
     (if e = CHR 0x22 then Some (CHR 0x22)
      else if e = CHR 0x5C then Some (CHR 0x5C)
      else if e = CHR ''/'' then Some (CHR ''/'')
      else if e = CHR ''b'' then Some (CHR 0x08)
      else if e = CHR ''f'' then Some (CHR 0x0C)
      else if e = CHR ''n'' then Some (CHR 0x0A)
      else if e = CHR ''r'' then Some (CHR 0x0D)
      else if e = CHR ''t'' then Some (CHR 0x09)
      else None)"

definition unicode_escape :: "char \<Rightarrow> char \<Rightarrow> char \<Rightarrow> char \<Rightarrow> char option" where
  "unicode_escape a b c d =
     (case (hex_val a, hex_val b, hex_val c, hex_val d) of
        (Some h1, Some h2, Some h3, Some h4) \<Rightarrow>
          Some (char_of (((h1 * 16 + h2) * 16 + h3) * 16 + h4))
      | _ \<Rightarrow> None)"

text \<open>The body of a string, after its opening quote: the decoded text and what follows.\<close>

fun lex_string :: "string \<Rightarrow> (string \<times> string) option" where
  "lex_string [] = None"
| "lex_string (c # cs) =
     (if c = CHR 0x22 then Some ([], cs)
      else if c = CHR 0x5C then
        (case cs of
           [] \<Rightarrow> None
         | e # cs' \<Rightarrow>
             if e = CHR ''u'' then
               (case cs' of
                  h1 # h2 # h3 # h4 # cs'' \<Rightarrow>
                    (case unicode_escape h1 h2 h3 h4 of
                       None \<Rightarrow> None
                     | Some d \<Rightarrow> map_option (\<lambda>(s, r). (d # s, r)) (lex_string cs''))
                | _ \<Rightarrow> None)
             else
               (case unescape e of
                  None \<Rightarrow> None
                | Some d \<Rightarrow> map_option (\<lambda>(s, r). (d # s, r)) (lex_string cs')))
      else if (of_char c :: nat) < 32 then None
      else map_option (\<lambda>(s, r). (c # s, r)) (lex_string cs))"

text \<open>A number: \<open>-? (0 | [1-9][0-9]*) (. [0-9]+)? ([eE] [+-]? [0-9]+)?\<close>.\<close>

definition lex_int :: "string \<Rightarrow> (string \<times> string) option" where
  "lex_int s =
     (case s of
        [] \<Rightarrow> None
      | d # r \<Rightarrow>
          if d = CHR ''0'' then Some ([d], r)
          else if is_digit d then Some (d # takeWhile is_digit r, dropWhile is_digit r)
          else None)"

definition lex_frac :: "string \<Rightarrow> (string \<times> string) option" where
  "lex_frac s =
     (case s of
        [] \<Rightarrow> Some ([], [])
      | c # r \<Rightarrow>
          if c = CHR ''.'' then
            (if takeWhile is_digit r = [] then None
             else Some (c # takeWhile is_digit r, dropWhile is_digit r))
          else Some ([], s))"

definition lex_exp :: "string \<Rightarrow> (string \<times> string) option" where
  "lex_exp s =
     (case s of
        [] \<Rightarrow> Some ([], [])
      | c # r \<Rightarrow>
          if c = CHR ''e'' \<or> c = CHR ''E'' then
            (let sign = (case r of [] \<Rightarrow> [] | g # _ \<Rightarrow>
                           if g = CHR ''+'' \<or> g = CHR ''-'' then [g] else []);
                 r' = drop (length sign) r
             in if takeWhile is_digit r' = [] then None
                else Some (c # sign @ takeWhile is_digit r', dropWhile is_digit r'))
          else Some ([], s))"

definition lex_number :: "string \<Rightarrow> (string \<times> string) option" where
  "lex_number s =
     (let sign = (case s of [] \<Rightarrow> [] | c # _ \<Rightarrow> if c = CHR ''-'' then [c] else [])
      in case lex_int (drop (length sign) s) of
           None \<Rightarrow> None
         | Some (i, r1) \<Rightarrow>
             (case lex_frac r1 of
                None \<Rightarrow> None
              | Some (f, r2) \<Rightarrow>
                  (case lex_exp r2 of
                     None \<Rightarrow> None
                   | Some (e, r3) \<Rightarrow> Some (sign @ i @ f @ e, r3))))"

lemma lex_string_shorter: "lex_string s = Some (d, r) \<Longrightarrow> length r < length s"
proof (induction s arbitrary: d r rule: lex_string.induct)
  case 1
  then show ?case by simp
next
  case (2 c cs)
  then show ?case
    by (fastforce split: if_splits list.splits option.splits)
qed

lemma lex_int_shorter: "lex_int s = Some (d, r) \<Longrightarrow> length r < length s"
  by (auto simp: lex_int_def less_Suc_eq_le length_dropWhile_le split: list.splits if_splits)

lemma lex_frac_shorter: "lex_frac s = Some (d, r) \<Longrightarrow> length r \<le> length s"
  by (auto simp: lex_frac_def le_SucI length_dropWhile_le split: list.splits if_splits)

lemma length_dropWhile_le_Suc:
  "length (dropWhile P t) \<le> Suc (length t)" "length (dropWhile P t) \<le> Suc (Suc (length t))"
  using length_dropWhile_le [of P t] by simp_all

lemma lex_exp_shorter: "lex_exp s = Some (d, r) \<Longrightarrow> length r \<le> length s"
  by (auto simp: lex_exp_def Let_def length_dropWhile_le_Suc split: list.splits if_splits)

lemma lex_number_shorter:
  assumes "lex_number s = Some (d, r)"
  shows "length r < length s"
proof -
  obtain k i r1 f r2 e where
    i: "lex_int (drop k s) = Some (i, r1)" and f: "lex_frac r1 = Some (f, r2)"
    and e: "lex_exp r2 = Some (e, r)"
    using assms by (auto simp: lex_number_def Let_def split: option.splits)
  have "length r1 < length (drop k s)" using lex_int_shorter [OF i] .
  moreover have "length r2 \<le> length r1" using lex_frac_shorter [OF f] .
  moreover have "length r \<le> length r2" using lex_exp_shorter [OF e] .
  ultimately show ?thesis by simp
qed

function tokenize :: "string \<Rightarrow> token list option" where
  "tokenize [] = Some []"
| "tokenize (c # cs) =
     (if is_ws c then tokenize cs
      else if c = CHR ''{'' then map_option (Cons TLBrace) (tokenize cs)
      else if c = CHR ''}'' then map_option (Cons TRBrace) (tokenize cs)
      else if c = CHR ''['' then map_option (Cons TLBracket) (tokenize cs)
      else if c = CHR '']'' then map_option (Cons TRBracket) (tokenize cs)
      else if c = CHR '':'' then map_option (Cons TColon) (tokenize cs)
      else if c = CHR '','' then map_option (Cons TComma) (tokenize cs)
      else if c = CHR 0x22 then
        (case lex_string cs of
           None \<Rightarrow> None
         | Some (s, r) \<Rightarrow> map_option (Cons (TString s)) (tokenize r))
      else if c = CHR ''-'' \<or> is_digit c then
        (case lex_number (c # cs) of
           None \<Rightarrow> None
         | Some (n, r) \<Rightarrow> map_option (Cons (TNumber n)) (tokenize r))
      else if prefix ''true'' (c # cs) then map_option (Cons TTrue) (tokenize (drop 3 cs))
      else if prefix ''false'' (c # cs) then map_option (Cons TFalse) (tokenize (drop 4 cs))
      else if prefix ''null'' (c # cs) then map_option (Cons TNull) (tokenize (drop 3 cs))
      else None)"
  by pat_completeness auto
termination
proof (relation "measure length")
  fix c cs x2 x y
  assume "lex_string cs = Some x2" and "(x, y) = x2"
  then show "(y, c # cs) \<in> measure length"
    using lex_string_shorter [of cs x y] by simp
next
  fix c cs x2 x y
  assume "lex_number (c # cs) = Some x2" and "(x, y) = x2"
  then show "(y, c # cs) \<in> measure length"
    using lex_number_shorter [of "c # cs" x y] by simp
qed auto

text \<open>
  The parser proper reads the tokens with a stack of open containers: an array with
  its elements so far, an object with its members so far and the key that waits for
  its value (both newest first).
\<close>

datatype frame = FArray "json list" | FObject "(string \<times> json) list" "string option"

datatype mode = Value | ValueOrEnd | KeyOrEnd | Key | Colon | CommaOrEnd | Finished json

definition push_value :: "json \<Rightarrow> frame list \<Rightarrow> (frame list \<times> mode) option" where
  "push_value v stack =
     (case stack of
        [] \<Rightarrow> Some ([], Finished v)
      | FArray es # rest \<Rightarrow> Some (FArray (v # es) # rest, CommaOrEnd)
      | FObject ms (Some k) # rest \<Rightarrow> Some (FObject ((k, v) # ms) None # rest, CommaOrEnd)
      | FObject ms None # rest \<Rightarrow> None)"

definition scalar_of :: "token \<Rightarrow> json option" where
  "scalar_of t =
     (case t of
        TString s \<Rightarrow> Some (JString s)
      | TNumber n \<Rightarrow> Some (JNumber n)
      | TTrue \<Rightarrow> Some (JBool True)
      | TFalse \<Rightarrow> Some (JBool False)
      | TNull \<Rightarrow> Some JNull
      | _ \<Rightarrow> None)"

definition close_array :: "frame list \<Rightarrow> (frame list \<times> mode) option" where
  "close_array stack =
     (case stack of FArray es # rest \<Rightarrow> push_value (JArray (rev es)) rest | _ \<Rightarrow> None)"

definition close_object :: "frame list \<Rightarrow> (frame list \<times> mode) option" where
  "close_object stack =
     (case stack of FObject ms None # rest \<Rightarrow> push_value (JObject (rev ms)) rest | _ \<Rightarrow> None)"

definition pda_value :: "bool \<Rightarrow> token \<Rightarrow> frame list \<Rightarrow> (frame list \<times> mode) option" where
  "pda_value may_end t stack =
     (if t = TLBracket then Some (FArray [] # stack, ValueOrEnd)
      else if t = TLBrace then Some (FObject [] None # stack, KeyOrEnd)
      else if t = TRBracket \<and> may_end then close_array stack
      else case scalar_of t of None \<Rightarrow> None | Some v \<Rightarrow> push_value v stack)"

definition pda_key :: "bool \<Rightarrow> token \<Rightarrow> frame list \<Rightarrow> (frame list \<times> mode) option" where
  "pda_key may_end t stack =
     (case t of
        TString k \<Rightarrow>
          (case stack of
             FObject ms None # rest \<Rightarrow> Some (FObject ms (Some k) # rest, Colon)
           | _ \<Rightarrow> None)
      | TRBrace \<Rightarrow> if may_end then close_object stack else None
      | _ \<Rightarrow> None)"

definition pda_step :: "token \<Rightarrow> frame list \<Rightarrow> mode \<Rightarrow> (frame list \<times> mode) option" where
  "pda_step t stack m =
     (case m of
        Value \<Rightarrow> pda_value False t stack
      | ValueOrEnd \<Rightarrow> pda_value True t stack
      | KeyOrEnd \<Rightarrow> pda_key True t stack
      | Key \<Rightarrow> pda_key False t stack
      | Colon \<Rightarrow> if t = TColon then Some (stack, Value) else None
      | CommaOrEnd \<Rightarrow>
          (if t = TComma then
             (case stack of
                FArray es # rest \<Rightarrow> Some (stack, Value)
              | FObject ms k # rest \<Rightarrow> Some (stack, Key)
              | [] \<Rightarrow> None)
           else if t = TRBracket then close_array stack
           else if t = TRBrace then close_object stack
           else None)
      | Finished v \<Rightarrow> None)"

fun pda_run :: "token list \<Rightarrow> frame list \<Rightarrow> mode \<Rightarrow> json option" where
  "pda_run [] stack m = (case m of Finished v \<Rightarrow> Some v | _ \<Rightarrow> None)"
| "pda_run (t # ts) stack m =
     (case pda_step t stack m of
        None \<Rightarrow> None
      | Some (stack', m') \<Rightarrow> pda_run ts stack' m')"

text \<open>\<open>JSON.parse\<close>: \<open>None\<close> when it throws its SyntaxError.\<close>

definition JSON_parse :: "string \<Rightarrow> json option" where
  "JSON_parse s = (case tokenize s of None \<Rightarrow> None | Some ts \<Rightarrow> pda_run ts [] Value)"

text \<open>\<open>JSON.stringify(value, null, 2)\<close>.\<close>

definition hex_digit :: "nat \<Rightarrow> char" where
  "hex_digit n = ''0123456789abcdef'' ! (n mod 16)"

definition quote_char :: "char \<Rightarrow> string" where
  "quote_char c =
     (if c = CHR 0x22 then [CHR 0x5C, CHR 0x22]
      else if c = CHR 0x5C then [CHR 0x5C, CHR 0x5C]
      else if c = CHR 0x08 then [CHR 0x5C, CHR ''b'']
      else if c = CHR 0x0C then [CHR 0x5C, CHR ''f'']
      else if c = CHR 0x0A then [CHR 0x5C, CHR ''n'']
      else if c = CHR 0x0D then [CHR 0x5C, CHR ''r'']
      else if c = CHR 0x09 then [CHR 0x5C, CHR ''t'']
      else if (of_char c :: nat) < 32 then
        [CHR 0x5C, CHR ''u'', CHR ''0'', CHR ''0'', hex_digit (of_char c div 16), hex_digit (of_char c)]
      else [c])"

definition quote :: "string \<Rightarrow> string" where
  "quote s = CHR 0x22 # concat (map quote_char s) @ [CHR 0x22]"

fun show_nat :: "nat \<Rightarrow> string" where
  "show_nat n =
     (if n < 10 then [char_of (48 + n)] else show_nat (n div 10) @ [char_of (48 + n mod 10)])"

declare show_nat.simps [simp del]

definition indent :: "nat \<Rightarrow> string" where
  "indent d = replicate (2 * d) (CHR '' '')"

fun join :: "string \<Rightarrow> string list \<Rightarrow> string" where
  "join sep [] = []"
| "join sep [x] = x"
| "join sep (x # y # ys) = x @ sep @ join sep (y # ys)"

definition bracketed :: "nat \<Rightarrow> char \<Rightarrow> char \<Rightarrow> string list \<Rightarrow> string" where
  "bracketed d l r items =
     (if items = [] then [l, r]
      else [l, CHR 0x0A] @ indent (d + 1) @
           join ([CHR '','', CHR 0x0A] @ indent (d + 1)) items @
           [CHR 0x0A] @ indent d @ [r])"

fun stringify :: "nat \<Rightarrow> json \<Rightarrow> string" where
  "stringify d JNull = ''null''"
| "stringify d (JBool b) = (if b then ''true'' else ''false'')"
| "stringify d (JNumber n) = n"
| "stringify d (JString s) = quote s"
| "stringify d (JArray xs) = bracketed d (CHR ''['') (CHR '']'') (map (stringify (d + 1)) xs)"
| "stringify d (JObject ms) =
     bracketed d (CHR ''{'') (CHR ''}'')
       (map (\<lambda>m. quote (fst m) @ '': '' @ stringify (d + 1) (snd m)) ms)"

definition JSON_stringify :: "json \<Rightarrow> string" where
  "JSON_stringify j = stringify 0 j"

section \<open>Configuration\<close>

text \<open>
  \<open>parseInt(s)\<close> with no radix: leading white space, a sign, an optional \<open>0x\<close>,
  then the longest run of digits; \<open>None\<close> is NaN. Numbers are unbounded integers
  (the program's values stay far below \<open>2^53\<close>).
\<close>

definition is_js_space :: "char \<Rightarrow> bool" where
  "is_js_space c = (c \<in> set [CHR 0x09, CHR 0x0A, CHR 0x0B, CHR 0x0C, CHR 0x0D, CHR 0x20])"

definition radix_digit :: "nat \<Rightarrow> char \<Rightarrow> nat option" where
  "radix_digit R c = (case hex_val c of None \<Rightarrow> None | Some v \<Rightarrow> if v < R then Some v else None)"

definition parseInt :: "string \<Rightarrow> int option" where
  "parseInt s =
     (let s1 = dropWhile is_js_space s;
          neg = (case s1 of [] \<Rightarrow> False | c # _ \<Rightarrow> c = CHR ''-'');
          s2 = (case s1 of [] \<Rightarrow> [] | c # r \<Rightarrow> if c = CHR ''-'' \<or> c = CHR ''+'' then r else s1);
          hex = (prefix ''0x'' s2 \<or> prefix ''0X'' s2);
          s3 = (if hex then drop 2 s2 else s2);
          R = (if hex then 16 else 10);
          Z = takeWhile (\<lambda>c. radix_digit R c \<noteq> None) s3;
          n = foldl (\<lambda>a c. case radix_digit R c of None \<Rightarrow> a | Some v \<Rightarrow> a * R + v) 0 Z
      in if Z = [] then None else Some (if neg then - int n else int n))"

text \<open>\<open>process.env.X || d\<close>: an unset or empty variable gives the default.\<close>

definition or_default :: "string option \<Rightarrow> string \<Rightarrow> string" where
  "or_default v d = (case v of None \<Rightarrow> d | Some s \<Rightarrow> if s = [] then d else s)"

record config =
  privateKey :: "string option"
  providerId :: "int option"
  sourcePath :: string
  concurrency :: "int option"
  batchSize :: "int option"

definition progressFile :: string where
  "progressFile = ''migration-progress.json''"

definition errorLogPath :: string where
  "errorLogPath = ''migration-errors.json''"

definition defaultConcurrency :: "world \<Rightarrow> string" where
  "defaultConcurrency w = (if rpc_isLocal w then ''20'' else ''10'')"

definition CONFIG :: "world \<Rightarrow> config" where
  "CONFIG w =
     \<lparr>privateKey = env_PRIVATE_KEY w,
      providerId = parseInt (or_default (env_PROVIDER_ID w) ''0''),
      sourcePath = or_default (env_SOURCE_PATH w) ''/filecoin-storage/piece'',
      concurrency = parseInt (or_default (env_CONCURRENCY w) (defaultConcurrency w)),
      batchSize = parseInt (or_default (env_BATCH_SIZE w) ''100'')\<rparr>"

text \<open>\<open>!x\<close> for a string that may be undefined, and for a number that may be NaN.\<close>

definition falsy_string :: "string option \<Rightarrow> bool" where
  "falsy_string v = (case v of None \<Rightarrow> True | Some s \<Rightarrow> s = [])"

definition falsy_number :: "int option \<Rightarrow> bool" where
  "falsy_number v = (case v of None \<Rightarrow> True | Some n \<Rightarrow> n = 0)"

section \<open>Errors and outcomes\<close>

text \<open>
  What \<open>main\<close> can throw: its own \<open>new Error(message)\<close>, the SyntaxError of
  \<open>JSON.parse\<close>, a TypeError, the rejection of an SDK call, the rejection of
  \<open>readdir\<close>. \<open>Untyped\<close> stands for a progress file that is JSON but not a
  \<open>MigrationProgress\<close> (the source casts without a check; the embedding follows the
  declared interface and stops there).
\<close>

datatype error =
    Error string
  | SyntaxError
  | TypeError string
  | SdkError string
  | ReaddirError string
  | Untyped

text \<open>
  How the process ends: \<open>main\<close> resolves, \<open>main\<close> rejects, the batching loop never
  ends, or \<open>process.exit\<close> is called.
\<close>

datatype outcome = Returned | Threw error | Diverges | Exited nat

text \<open>The exit code: \<open>main().catch\<close> exits with 1 (lines 358-362).\<close>

definition exit_code :: "outcome \<Rightarrow> nat option" where
  "exit_code out =
     (case out of Returned \<Rightarrow> Some 0 | Threw e \<Rightarrow> Some 1 | Diverges \<Rightarrow> None | Exited n \<Rightarrow> Some n)"

section \<open>Progress store\<close>

definition json_of_progress :: "MigrationProgress \<Rightarrow> json" where
  "json_of_progress p =
     JObject [(''lastUpdated'', JString (lastUpdated p)),
              (''totalFiles'', JNumber (show_nat (totalFiles p))),
              (''migratedCount'', JNumber (show_nat (migratedCount p))),
              (''migratedFiles'', JArray (map JString (migratedFiles p)))]"

definition json_of_errors :: "ErrorRecord list \<Rightarrow> json" where
  "json_of_errors es =
     JArray (map (\<lambda>r. JObject [(''file'', JString (e_file r)),
                                (''error'', JString (e_error r)),
                                (''timestamp'', JString (e_timestamp r))]) es)"

definition nat_of_lexeme :: "string \<Rightarrow> nat option" where
  "nat_of_lexeme s =
     (if s \<noteq> [] \<and> list_all is_digit s
      then Some (foldl (\<lambda>a c. a * 10 + digit_val c) 0 s) else None)"

definition string_of_json :: "json \<Rightarrow> string option" where
  "string_of_json j = (case j of JString s \<Rightarrow> Some s | _ \<Rightarrow> None)"

definition nat_of_json :: "json \<Rightarrow> nat option" where
  "nat_of_json j = (case j of JNumber n \<Rightarrow> nat_of_lexeme n | _ \<Rightarrow> None)"

text \<open>
  \<open>new Set(x)\<close> for the value of a property: undefined and null give the empty set,
  an array its elements, a string its characters; anything else is not iterable.
\<close>

definition set_of_iterable :: "json option \<Rightarrow> error + string list" where
  "set_of_iterable v =
     (case v of
        None \<Rightarrow> Inr []
      | Some JNull \<Rightarrow> Inr []
      | Some (JArray xs) \<Rightarrow>
          (case those (map string_of_json xs) of
             None \<Rightarrow> Inl Untyped
           | Some ss \<Rightarrow> Inr (new_Set ss))
      | Some (JString s) \<Rightarrow> Inr (new_Set (map (\<lambda>c. [c]) s))
      | Some _ \<Rightarrow> Inl (TypeError ''object is not iterable''))"

text \<open>
  Lines 88-91 on the parsed value: \<open>progress.migratedFiles\<close> of null throws; of two
  members with one key the later one counts. The record holds the four members of the
  interface; other members of the file, which the spread of the source would carry
  along, are dropped.
\<close>

definition decode_progress :: "json \<Rightarrow> error + MigrationProgress" where
  "decode_progress j =
     (case j of
        JNull \<Rightarrow> Inl (TypeError ''Cannot read properties of null'')
      | JObject ms \<Rightarrow>
          (let get = map_of (rev ms) in
           case set_of_iterable (get ''migratedFiles'') of
             Inl e \<Rightarrow> Inl e
           | Inr S \<Rightarrow>
               (case (Option.bind (get ''lastUpdated'') string_of_json,
                      Option.bind (get ''totalFiles'') nat_of_json,
                      Option.bind (get ''migratedCount'') nat_of_json) of
                  (Some l, Some t, Some c) \<Rightarrow>
                    Inr \<lparr>lastUpdated = l, totalFiles = t, migratedCount = c, migratedFiles = S\<rparr>
                | _ \<Rightarrow> Inl Untyped))
      | _ \<Rightarrow> Inl Untyped)"

definition loadProgress :: "world \<Rightarrow> run_state \<Rightarrow> error + MigrationProgress" where
  "loadProgress w st =
     (case st_disk st progressFile of
        Some data \<Rightarrow>
          (case JSON_parse data of
             None \<Rightarrow> Inl SyntaxError
           | Some progress \<Rightarrow> decode_progress progress)
      | None \<Rightarrow>
          Inr \<lparr>lastUpdated = now w st, totalFiles = 0, migratedCount = 0, migratedFiles = []\<rparr>)"

text \<open>
  \<open>writeFile(path, data)\<close> opens the file with flag \<open>w\<close>, which truncates it, and
  writes the bytes of \<open>data\<close>. The second function is the disk a crash leaves when
  \<open>k\<close> bytes had been written.
\<close>

definition writeFile :: "string \<Rightarrow> string \<Rightarrow> (string \<rightharpoonup> string) \<Rightarrow> (string \<rightharpoonup> string)" where
  "writeFile path data d = d(path \<mapsto> data)"

definition writeFile_crashed ::
  "nat \<Rightarrow> string \<Rightarrow> string \<Rightarrow> (string \<rightharpoonup> string) \<Rightarrow> (string \<rightharpoonup> string)" where
  "writeFile_crashed k path data d = d(path \<mapsto> take k data)"

definition saveProgress :: "run_state \<Rightarrow> run_state" where
  "saveProgress st =
     emit (ProgressSaved (st_progress st))
       (st\<lparr>st_disk := writeFile progressFile
               (JSON_stringify (json_of_progress (st_progress st))) (st_disk st)\<rparr>)"

definition saveProgress_crashed :: "nat \<Rightarrow> run_state \<Rightarrow> run_state" where
  "saveProgress_crashed k st =
     st\<lparr>st_disk := writeFile_crashed k progressFile
            (JSON_stringify (json_of_progress (st_progress st))) (st_disk st)\<rparr>"

section \<open>Batches\<close>

text \<open>
  JavaScript numbers that may be NaN (\<open>None\<close>): \<open>+\<close> and \<open><\<close>, and
  \<open>Array.prototype.slice\<close> with its clamping of the two indices.
\<close>

definition js_add :: "int option \<Rightarrow> int option \<Rightarrow> int option" where
  "js_add a b = (case (a, b) of (Some x, Some y) \<Rightarrow> Some (x + y) | _ \<Rightarrow> None)"

definition js_less :: "int option \<Rightarrow> int option \<Rightarrow> bool" where
  "js_less a b = (case (a, b) of (Some x, Some y) \<Rightarrow> x < y | _ \<Rightarrow> False)"

definition slice_index :: "nat \<Rightarrow> int option \<Rightarrow> nat" where
  "slice_index len k =
     (case k of
        None \<Rightarrow> 0
      | Some v \<Rightarrow> if v < 0 then nat (max (int len + v) 0) else min (nat v) len)"

definition slice :: "'a list \<Rightarrow> int option \<Rightarrow> int option \<Rightarrow> 'a list" where
  "slice xs a b =
     (let from = slice_index (length xs) a; to = slice_index (length xs) b
      in take (to - from) (drop from xs))"

text \<open>
  The loop of lines 213-215, from index \<open>i\<close> on. It does not end when the batch size
  is zero or negative: the result is then \<open>None\<close>.
\<close>

partial_function (option) make_batches ::
  "int option \<Rightarrow> string list \<Rightarrow> int option \<Rightarrow> string list list option" where
  "make_batches bs remainingFiles i =
     (if js_less i (Some (int (length remainingFiles))) then
        Option.bind (make_batches bs remainingFiles (js_add i bs))
          (\<lambda>batches. Some (slice remainingFiles i (js_add i bs) # batches))
      else Some [])"

declare make_batches.simps [code]

text \<open>
  One turn of the loop of lines 219-300. Each task runs its continuation without
  yielding, so the batch folds its tasks one after the other, in the order they settle.
\<close>

definition run_tasks :: "world \<Rightarrow> string list \<Rightarrow> run_state \<Rightarrow> run_state" where
  "run_tasks w fs st = foldl (\<lambda>s f. task w f s) st fs"

definition settle_order :: "world \<Rightarrow> string list \<Rightarrow> string list" where
  "settle_order w batch = sort_key (finish_time w) batch"

definition run_batch :: "world \<Rightarrow> string list \<Rightarrow> run_state \<Rightarrow> run_state" where
  "run_batch w batch st =
     (let st = run_tasks w (settle_order w batch) st;
          st = st\<lparr>st_progress := (st_progress st)\<lparr>lastUpdated := now w st\<rparr>\<rparr>
      in saveProgress st)"

section \<open>The run\<close>

text \<open>Lines 302-337: the final report, the error log, the final save.\<close>

definition report :: "run_state \<Rightarrow> run_state" where
  "report st =
     (let st = emit (Printed (MigrationComplete (total (st_stats st)) (skipped (st_stats st))
                       (completed (st_stats st)) (failed (st_stats st))
                       (migratedCount (st_progress st)))) st;
          st = (if failed (st_stats st) > 0 then
                  emit (Printed ErrorLogSaved)
                    (emit (ErrorLogWritten (errors (st_stats st)))
                       (st\<lparr>st_disk := writeFile errorLogPath
                              (JSON_stringify (json_of_errors (errors (st_stats st))))
                              (st_disk st)\<rparr>))
                else st)
      in saveProgress st)"

text \<open>
  \<open>pLimit(n)\<close> throws unless \<open>n\<close> is an integer from 1 up (the library's check).
\<close>

definition pLimit_ok :: "int option \<Rightarrow> bool" where
  "pLimit_ok n = (case n of None \<Rightarrow> False | Some c \<Rightarrow> 1 \<le> c)"

text \<open>Lines 204-337: the batches, then the report.\<close>

definition migrate :: "world \<Rightarrow> string list \<Rightarrow> run_state \<Rightarrow> outcome \<times> run_state" where
  "migrate w remainingFiles st =
     (let st = st\<lparr>st_progress := (st_progress st)\<lparr>totalFiles := total (st_stats st)\<rparr>\<rparr>
      in if \<not> pLimit_ok (concurrency (CONFIG w)) then
           (Threw (TypeError ''Expected concurrency to be a number from 1 and up''), st)
         else
           (case make_batches (batchSize (CONFIG w)) remainingFiles (Some 0) of
              None \<Rightarrow> (Diverges, st)
            | Some batches \<Rightarrow> (Returned, report (foldl (\<lambda>s b. run_batch w b s) st batches))))"

definition init_state :: "world \<Rightarrow> run_state" where
  "init_state w =
     \<lparr>st_stats = \<lparr>total = 0, completed = 0, failed = 0, skipped = 0, errors = []\<rparr>,
      st_progress = \<lparr>lastUpdated = [], totalFiles = 0, migratedCount = 0, migratedFiles = []\<rparr>,
      st_disk = disk w,
      st_trace = []\<rparr>"

text \<open>Lines 186-193: the piece files of the source and those not yet handled.\<close>

definition pieceFiles_of :: "string list \<Rightarrow> string list" where
  "pieceFiles_of files = filter (\<lambda>f. startsWith f ''s-t00-'') files"

definition remainingFiles_of :: "MigrationProgress \<Rightarrow> string list \<Rightarrow> string list" where
  "remainingFiles_of progress pieceFiles =
     filter (\<lambda>f. \<not> Set_has (migratedFiles progress) f) pieceFiles"

text \<open>
  \<open>main\<close> (lines 109-338). Before \<open>loadProgress\<close> has returned, \<open>st_progress\<close> holds
  a placeholder. Progress lines, durations and throughput are not modelled.
\<close>

definition main :: "world \<Rightarrow> outcome \<times> run_state" where
  "main w =
     (let st = init_state w in
      if falsy_string (privateKey (CONFIG w)) then
        (Threw (Error ''PRIVATE_KEY environment variable is required''), st)
      else if falsy_number (providerId (CONFIG w)) then
        (Threw (Error ''PROVIDER_ID environment variable is required''), st)
      else
        (case loadProgress w st of
           Inl e \<Rightarrow> (Threw e, st)
         | Inr progress \<Rightarrow>
             (let st = st\<lparr>st_progress := progress\<rparr>;
                  st = (if migratedCount progress > 0
                        then st\<lparr>st_stats := (st_stats st)\<lparr>skipped := migratedCount progress\<rparr>\<rparr>
                        else st)
              in case sdk_create w of
                   Some m \<Rightarrow> (Threw (SdkError m), st)
                 | None \<Rightarrow>
                     (case sdk_createContext w of
                        Some m \<Rightarrow> (Threw (SdkError m), st)
                      | None \<Rightarrow>
                          (let st = emit (ReaddirCalled (sourcePath (CONFIG w))) st in
                           case directory w (sourcePath (CONFIG w)) of
                             None \<Rightarrow> (Threw (ReaddirError (sourcePath (CONFIG w))), st)
                           | Some files \<Rightarrow>
                               (let pieceFiles = pieceFiles_of files;
                                    st = st\<lparr>st_stats := (st_stats st)
                                           \<lparr>total := length pieceFiles\<rparr>\<rparr>;
                                    remainingFiles = remainingFiles_of (st_progress st) pieceFiles;
                                    st = emit (Printed (ScanResult (total (st_stats st))
                                           (migratedCount (st_progress st))
                                           (length remainingFiles))) st
                                in if length remainingFiles = 0 then
                                     (Returned, emit (Printed AllAlreadyMigrated) st)
                                   else migrate w remainingFiles st))))))"

section \<open>Shutdown\<close>




section \<open>The classification of the specification\<close>

text \<open>
  The four buckets of the specification and its rules in their priority order, to be
  compared with the task of the source: no error; an error that says the remote side
  holds the content already; an error that says the payload is above the size ceiling;
  anything else.
\<close>

datatype classification = Success | Duplicate | PermanentSkip | TransientFailure

definition failure_of :: "attempt \<Rightarrow> string option" where
  "failure_of a = (case a of ReadFails m \<Rightarrow> Some m | UploadFails m \<Rightarrow> Some m | UploadOk cid \<Rightarrow> None)"

definition classify :: "attempt \<Rightarrow> classification" where
  "classify a =
     (case failure_of a of
        None \<Rightarrow> Success
      | Some m \<Rightarrow>
          if is_duplicate m then Duplicate
          else if is_tooLarge m then PermanentSkip
          else TransientFailure)"

definition counted_completed :: "run_state \<Rightarrow> run_state \<Rightarrow> bool" where
  "counted_completed st st' =
     (completed (st_stats st') = completed (st_stats st) + 1 \<and>
      failed (st_stats st') = failed (st_stats st) \<and>
      errors (st_stats st') = errors (st_stats st))"

definition counted_failed :: "string \<Rightarrow> run_state \<Rightarrow> run_state \<Rightarrow> bool" where
  "counted_failed f st st' =
     (failed (st_stats st') = failed (st_stats st) + 1 \<and>
      completed (st_stats st') = completed (st_stats st) \<and>
      (\<exists>r. errors (st_stats st') = errors (st_stats st) @ [r] \<and> e_file r = f))"

definition marked_handled :: "string \<Rightarrow> run_state \<Rightarrow> run_state \<Rightarrow> bool" where
  "marked_handled f st st' =
     (migratedFiles (st_progress st') = Set_add f (migratedFiles (st_progress st)) \<and>
      Set_has (migratedFiles (st_progress st')) f)"

definition not_marked :: "run_state \<Rightarrow> run_state \<Rightarrow> bool" where
  "not_marked st st' = (migratedFiles (st_progress st') = migratedFiles (st_progress st))"

section \<open>The stations of a run\<close>

text \<open>
  The state of \<open>main\<close> when the configuration has passed its checks and the progress
  record \<open>p\<close> is loaded (line 130), and when the source is scanned (line 197).
\<close>

definition config_ok :: "world \<Rightarrow> bool" where
  "config_ok w =
     (\<not> falsy_string (privateKey (CONFIG w)) \<and> \<not> falsy_number (providerId (CONFIG w)))"

definition loaded_state :: "world \<Rightarrow> MigrationProgress \<Rightarrow> run_state" where
  "loaded_state w p =
     (init_state w)\<lparr>st_progress := p,
        st_stats := (st_stats (init_state w))\<lparr>skipped := migratedCount p\<rparr>\<rparr>"

definition scanned_state :: "world \<Rightarrow> MigrationProgress \<Rightarrow> string list \<Rightarrow> run_state" where
  "scanned_state w p files =
     (loaded_state w p)
       \<lparr>st_stats := (st_stats (loaded_state w p))\<lparr>total := length (pieceFiles_of files)\<rparr>,
        st_trace := [ReaddirCalled (sourcePath (CONFIG w)),
                     Printed (ScanResult (length (pieceFiles_of files)) (migratedCount p)
                                (length (remainingFiles_of p (pieceFiles_of files))))]\<rparr>"

section \<open>Example environments\<close>

text \<open>
  A source with three pieces and one other file, batches of two, a fresh working
  directory; the remote side refuses the second piece as too large.
\<close>

definition w_example :: world where
  "w_example =
     \<lparr>env_PRIVATE_KEY = Some ''0xkey'', env_PROVIDER_ID = Some ''123'', env_SOURCE_PATH = None,
      env_CONCURRENCY = None, env_BATCH_SIZE = Some ''2'', rpc_isLocal = False,
      disk = Map.empty,
      directory = [''/filecoin-storage/piece'' \<mapsto>
                     [''s-t00-a'', ''s-t00-b'', ''s-t00-c'', ''notes.txt'']],
      sdk_create = None, sdk_createContext = None,
      attempt_of = (\<lambda>f. if f = ''s-t00-b''
                        then UploadFails ''File size 300 exceeds maximum allowed size''
                        else UploadOk ''cid''),
      finish_time = (\<lambda>f. 0), clock = (\<lambda>n. ''T'')\<rparr>"

text \<open>The same source when a progress file lists all three pieces, and when it is cut short.\<close>

definition p_done :: MigrationProgress where
  "p_done = \<lparr>lastUpdated = ''T'', totalFiles = 3, migratedCount = 3,
             migratedFiles = [''s-t00-a'', ''s-t00-b'', ''s-t00-c'']\<rparr>"

definition w_done :: world where
  "w_done = w_example\<lparr>disk := [progressFile \<mapsto> JSON_stringify (json_of_progress p_done)]\<rparr>"

definition w_corrupt :: world where
  "w_corrupt = w_example\<lparr>disk := [progressFile \<mapsto> ''{'']\<rparr>"

text \<open>
  The record a fresh run of the example starts from, and the example when
  \<open>Synapse.create\<close> rejects.
\<close>

definition p_fresh :: MigrationProgress where
  "p_fresh = \<lparr>lastUpdated = ''T'', totalFiles = 0, migratedCount = 0, migratedFiles = []\<rparr>"


section \<open>Observations of a run\<close>

text \<open>
  What a trace shows: the pieces whose task has settled (each task prints one line for
  its piece), the pieces handed to \<open>context.upload\<close>, the progress records written,
  the error logs written.
\<close>

fun item_of :: "event \<Rightarrow> string option" where
  "item_of (Printed (ItemUploaded f cid)) = Some f"
| "item_of (Printed (ItemAlreadyMigrated f)) = Some f"
| "item_of (Printed (ItemSkipped f)) = Some f"
| "item_of (Printed (ItemFailed f m)) = Some f"
| "item_of e = None"

definition settled :: "event list \<Rightarrow> string list" where
  "settled t = List.map_filter item_of t"

definition uploads :: "event list \<Rightarrow> string list" where
  "uploads t = List.map_filter (\<lambda>e. case e of UploadCalled f \<Rightarrow> Some f | _ \<Rightarrow> None) t"

definition saved :: "event list \<Rightarrow> MigrationProgress list" where
  "saved t = List.map_filter (\<lambda>e. case e of ProgressSaved p \<Rightarrow> Some p | _ \<Rightarrow> None) t"

definition error_logs :: "event list \<Rightarrow> ErrorRecord list list" where
  "error_logs t = List.map_filter (\<lambda>e. case e of ErrorLogWritten es \<Rightarrow> Some es | _ \<Rightarrow> None) t"

text \<open>
  A run reaches the scan of the source when the configuration passes, the progress
  record loads, both SDK calls resolve and the source can be listed.
\<close>

definition reaches_scan :: "world \<Rightarrow> MigrationProgress \<Rightarrow> string list \<Rightarrow> bool" where
  "reaches_scan w p files =
     (config_ok w \<and> loadProgress w (init_state w) = Inr p \<and> sdk_create w = None \<and>
      sdk_createContext w = None \<and> directory w (sourcePath (CONFIG w)) = Some files)"

text \<open>The outcomes that \<open>stats.failed\<close> counts, and the tasks whose read succeeds.\<close>

definition counts_failed :: "world \<Rightarrow> string \<Rightarrow> bool" where
  "counts_failed w f =
     (classify (attempt_of w f) = PermanentSkip \<or> classify (attempt_of w f) = TransientFailure)"

definition read_ok :: "world \<Rightarrow> string \<Rightarrow> bool" where
  "read_ok w f = (case attempt_of w f of ReadFails m \<Rightarrow> False | _ \<Rightarrow> True)"

text \<open>The loop over the batches, and the state in which \<open>migrate\<close> enters it.\<close>

definition run_batches :: "world \<Rightarrow> string list list \<Rightarrow> run_state \<Rightarrow> run_state" where
  "run_batches w bs st = foldl (\<lambda>s b. run_batch w b s) st bs"

definition entered :: "run_state \<Rightarrow> run_state" where
  "entered st = st\<lparr>st_progress := (st_progress st)\<lparr>totalFiles := total (st_stats st)\<rparr>\<rparr>"

section \<open>The count and the set\<close>




text \<open>
  The record the example run saves after its first batch, and the state in which the
  example run enters its first batch.
\<close>

definition q_first :: MigrationProgress where
  "q_first = \<lparr>lastUpdated = ''T'', totalFiles = 3, migratedCount = 1,
              migratedFiles = [''s-t00-a'', ''s-t00-b'']\<rparr>"

definition st_example :: run_state where
  "st_example =
     entered (scanned_state w_example p_fresh [''s-t00-a'', ''s-t00-b'', ''s-t00-c'', ''notes.txt''])"

section \<open>Tokens of a serialized record\<close>

text \<open>
  The tokens of what \<open>JSON.stringify\<close> writes for an array of strings and for an
  object of a string, two numbers and an array of strings, as the progress record is.
\<close>

definition comma_strings :: "string list \<Rightarrow> token list" where
  "comma_strings fs = concat (map (\<lambda>g. [TComma, TString g]) fs)"

definition array_tokens :: "string list \<Rightarrow> token list" where
  "array_tokens fs =
     (case fs of
        [] \<Rightarrow> [TLBracket, TRBracket]
      | f # fs' \<Rightarrow> TLBracket # TString f # comma_strings fs' @ [TRBracket])"

definition record_tokens ::
  "string \<Rightarrow> string \<Rightarrow> string \<Rightarrow> nat \<Rightarrow> string \<Rightarrow> nat \<Rightarrow> string \<Rightarrow> string list \<Rightarrow> token list" where
  "record_tokens k1 l k2 t k3 c k4 fs =
     [TLBrace, TString k1, TColon, TString l, TComma,
      TString k2, TColon, TNumber (show_nat t), TComma,
      TString k3, TColon, TNumber (show_nat c), TComma,
      TString k4, TColon] @ array_tokens fs @ [TRBrace]"

text \<open>
  The record the example run saves after its second batch, and a state that holds it
  while the disk holds the record of the first batch.
\<close>

definition q_second :: MigrationProgress where
  "q_second = \<lparr>lastUpdated = ''T'', totalFiles = 3, migratedCount = 2,
               migratedFiles = [''s-t00-a'', ''s-t00-b'', ''s-t00-c'']\<rparr>"

definition st_checkpoint :: run_state where
  "st_checkpoint =
     \<lparr>st_stats = \<lparr>total = 3, completed = 2, failed = 1, skipped = 0, errors = []\<rparr>,
      st_progress = q_second,
      st_disk = [progressFile \<mapsto> JSON_stringify (json_of_progress q_first)],
      st_trace = []\<rparr>"

section \<open>Properties of the per-item task\<close>

lemma Set_has_add: "Set_has (Set_add x S) x"
  by (simp add: Set_add_def Set_has_def)

text \<open>
  C2. Every outcome of a task falls into exactly one bucket, chosen in the priority
  order of the specification, and the task folds it in as the bucket says: Success and
  Duplicate count as completed and add the name to \<open>migratedFiles\<close>; PermanentSkip
  counts as failed, appends an error record and still adds the name; TransientFailure
  counts as failed, appends an error record and leaves \<open>migratedFiles\<close> as it was.
\<close>

theorem task_classification:
  "(case classify (attempt_of w f) of
      Success \<Rightarrow>
        counted_completed st (task w f st) \<and> marked_handled f st (task w f st)
    | Duplicate \<Rightarrow>
        counted_completed st (task w f st) \<and> marked_handled f st (task w f st)
    | PermanentSkip \<Rightarrow>
        counted_failed f st (task w f st) \<and> marked_handled f st (task w f st)
    | TransientFailure \<Rightarrow>
        counted_failed f st (task w f st) \<and> not_marked st (task w f st))"
proof (cases "attempt_of w f")
  case (ReadFails m)
  then show ?thesis
    by (simp add: classify_def failure_of_def task_def task_catch_def emit_def Let_def
        counted_completed_def counted_failed_def marked_handled_def not_marked_def Set_has_add)
next
  case (UploadFails m)
  then show ?thesis
    by (simp add: classify_def failure_of_def task_def task_catch_def emit_def Let_def
        counted_completed_def counted_failed_def marked_handled_def not_marked_def Set_has_add)
next
  case (UploadOk cid)
  then show ?thesis
    by (simp add: classify_def failure_of_def task_def task_ok_def emit_def Let_def
        counted_completed_def counted_failed_def marked_handled_def Set_has_add)
qed

section \<open>The cases of main\<close>

lemma main_no_key:
  "falsy_string (privateKey (CONFIG w)) \<Longrightarrow>
   main w = (Threw (Error ''PRIVATE_KEY environment variable is required''), init_state w)"
  by (simp add: main_def Let_def)

lemma main_no_provider:
  "\<not> falsy_string (privateKey (CONFIG w)) \<Longrightarrow> falsy_number (providerId (CONFIG w)) \<Longrightarrow>
   main w = (Threw (Error ''PROVIDER_ID environment variable is required''), init_state w)"
  by (simp add: main_def Let_def)

lemma main_load_fails:
  "config_ok w \<Longrightarrow> loadProgress w (init_state w) = Inl e \<Longrightarrow> main w = (Threw e, init_state w)"
  by (simp add: main_def Let_def config_ok_def)

lemma main_create_fails:
  "config_ok w \<Longrightarrow> loadProgress w (init_state w) = Inr p \<Longrightarrow> sdk_create w = Some m \<Longrightarrow>
   main w = (Threw (SdkError m), loaded_state w p)"
  by (simp add: main_def Let_def config_ok_def loaded_state_def init_state_def)

lemma main_context_fails:
  "config_ok w \<Longrightarrow> loadProgress w (init_state w) = Inr p \<Longrightarrow> sdk_create w = None \<Longrightarrow>
   sdk_createContext w = Some m \<Longrightarrow> main w = (Threw (SdkError m), loaded_state w p)"
  by (simp add: main_def Let_def config_ok_def loaded_state_def init_state_def)

lemma main_readdir_fails:
  "config_ok w \<Longrightarrow> loadProgress w (init_state w) = Inr p \<Longrightarrow> sdk_create w = None \<Longrightarrow>
   sdk_createContext w = None \<Longrightarrow> directory w (sourcePath (CONFIG w)) = None \<Longrightarrow>
   main w = (Threw (ReaddirError (sourcePath (CONFIG w))),
             emit (ReaddirCalled (sourcePath (CONFIG w))) (loaded_state w p))"
  by (simp add: main_def Let_def config_ok_def loaded_state_def init_state_def emit_def)

lemma main_enumerated:
  "config_ok w \<Longrightarrow> loadProgress w (init_state w) = Inr p \<Longrightarrow> sdk_create w = None \<Longrightarrow>
   sdk_createContext w = None \<Longrightarrow> directory w (sourcePath (CONFIG w)) = Some files \<Longrightarrow>
   main w =
     (if remainingFiles_of p (pieceFiles_of files) = []
      then (Returned, emit (Printed AllAlreadyMigrated) (scanned_state w p files))
      else migrate w (remainingFiles_of p (pieceFiles_of files)) (scanned_state w p files))"
  by (simp add: main_def Let_def config_ok_def loaded_state_def scanned_state_def init_state_def emit_def)

section \<open>Configuration errors\<close>

lemma parseInt_0: "parseInt ''0'' = Some 0"
  by code_simp

lemma parseInt_abc: "parseInt ''abc'' = None"
  by code_simp

lemma init_state_env: "init_state (w\<lparr>env_PROVIDER_ID := v\<rparr>) = init_state w"
  by (simp add: init_state_def)

text \<open>
  C10. When \<open>PROVIDER_ID\<close> is set but \<open>parseInt\<close> reads it as NaN or as zero, the run
  is the run with \<open>PROVIDER_ID\<close> unset: \<open>main\<close> throws a configuration error (the one
  of \<open>PROVIDER_ID\<close> when the private key is present), the exit code is 1, and nothing has
  been listed, uploaded or written.
\<close>

theorem provider_id_unusable_fatal:
  assumes "env_PROVIDER_ID w = Some v" and "parseInt v = None \<or> parseInt v = Some 0"
  shows "main w = main (w\<lparr>env_PROVIDER_ID := None\<rparr>) \<and>
         fst (main w) = Threw (Error (if falsy_string (env_PRIVATE_KEY w)
                                  then ''PRIVATE_KEY environment variable is required''
                                  else ''PROVIDER_ID environment variable is required'')) \<and>
         exit_code (fst (main w)) = Some 1 \<and>
         st_trace (snd (main w)) = [] \<and>
         st_disk (snd (main w)) = disk w"
proof -
  let ?w' = "w\<lparr>env_PROVIDER_ID := None\<rparr>"
  have p: "falsy_number (providerId (CONFIG w))"
    using assms by (auto simp: CONFIG_def or_default_def falsy_number_def parseInt_0)
  have p': "falsy_number (providerId (CONFIG ?w'))"
    by (simp add: CONFIG_def or_default_def falsy_number_def parseInt_0)
  have k: "privateKey (CONFIG ?w') = privateKey (CONFIG w)" "privateKey (CONFIG w) = env_PRIVATE_KEY w"
    by (simp_all add: CONFIG_def)
  show ?thesis
  proof (cases "falsy_string (env_PRIVATE_KEY w)")
    case True
    then show ?thesis
      using main_no_key [of w] main_no_key [of ?w'] k
      by (simp add: init_state_env exit_code_def) (simp add: init_state_def)
  next
    case False
    then show ?thesis
      using main_no_provider [of w] main_no_provider [of ?w'] k p p'
      by (simp add: init_state_env exit_code_def) (simp add: init_state_def)
  qed
qed


theorem provider_id_unusable_fatal_witness:
  "env_PROVIDER_ID (w_example\<lparr>env_PROVIDER_ID := Some ''abc''\<rparr>) = Some ''abc'' \<and>
   parseInt ''abc'' = None \<and>
   fst (main (w_example\<lparr>env_PROVIDER_ID := Some ''abc''\<rparr>)) =
     Threw (Error ''PROVIDER_ID environment variable is required'') \<and>
   exit_code (fst (main (w_example\<lparr>env_PROVIDER_ID := Some ''abc''\<rparr>))) = Some 1"
proof -
  let ?w = "w_example\<lparr>env_PROVIDER_ID := Some ''abc''\<rparr>"
  have h: "env_PROVIDER_ID ?w = Some ''abc''" by simp
  have k: "\<not> falsy_string (env_PRIVATE_KEY ?w)"
    by (simp add: w_example_def falsy_string_def)
  have "parseInt ''abc'' = None \<or> parseInt ''abc'' = Some 0"
    using parseInt_abc by simp
  from provider_id_unusable_fatal [OF h this]
  have r: "fst (main ?w) = Threw (Error (if falsy_string (env_PRIVATE_KEY ?w)
                                  then ''PRIVATE_KEY environment variable is required''
                                  else ''PROVIDER_ID environment variable is required''))"
    and x: "exit_code (fst (main ?w)) = Some 1"
    by blast+
  have e: "fst (main ?w) = Threw (Error ''PROVIDER_ID environment variable is required'')"
    using r k by simp
  show ?thesis using h parseInt_abc e x by blast
qed

section \<open>Loading the progress record\<close>

lemma loadProgress_absent:
  "st_disk st progressFile = None \<Longrightarrow>
   loadProgress w st =
     Inr \<lparr>lastUpdated = now w st, totalFiles = 0, migratedCount = 0, migratedFiles = []\<rparr>"
  by (simp add: loadProgress_def)

lemma loadProgress_unparsable:
  "st_disk st progressFile = Some data \<Longrightarrow> JSON_parse data = None \<Longrightarrow>
   loadProgress w st = Inl SyntaxError"
  by (simp add: loadProgress_def)

lemma main_config_fails:
  "\<not> config_ok w \<Longrightarrow> (\<exists>m. fst (main w) = Threw (Error m)) \<and> snd (main w) = init_state w"
  using main_no_key [of w] main_no_provider [of w]
  by (cases "falsy_string (privateKey (CONFIG w))") (auto simp: config_ok_def)

text \<open>
  C7. With no progress file \<open>loadProgress\<close> returns the zero record. With a progress
  file that \<open>JSON.parse\<close> rejects it throws; \<open>main\<close> then throws too, the exit code is
  1, and the disk (the progress file with it) is as it was found.
\<close>

theorem loadProgress_absent_or_unparsable:
  "(st_disk st progressFile = None \<longrightarrow>
      loadProgress w st =
        Inr \<lparr>lastUpdated = now w st, totalFiles = 0, migratedCount = 0, migratedFiles = []\<rparr>) \<and>
   (disk w progressFile = Some data \<and> JSON_parse data = None \<longrightarrow>
      loadProgress w (init_state w) = Inl SyntaxError \<and>
      (\<exists>e. fst (main w) = Threw e) \<and>
      (config_ok w \<longrightarrow> fst (main w) = Threw SyntaxError) \<and>
      exit_code (fst (main w)) = Some 1 \<and>
      st_disk (snd (main w)) = disk w \<and>
      st_trace (snd (main w)) = [])"
proof (intro conjI impI)
  assume "st_disk st progressFile = None"
  then show "loadProgress w st =
      Inr \<lparr>lastUpdated = now w st, totalFiles = 0, migratedCount = 0, migratedFiles = []\<rparr>"
    by (rule loadProgress_absent)
next
  assume a: "disk w progressFile = Some data \<and> JSON_parse data = None"
  then have l: "loadProgress w (init_state w) = Inl SyntaxError"
    by (simp add: loadProgress_unparsable init_state_def)
  show "loadProgress w (init_state w) = Inl SyntaxError" by (rule l)
  have m: "config_ok w \<Longrightarrow> main w = (Threw SyntaxError, init_state w)"
    using main_load_fails [OF _ l] .
  show "config_ok w \<Longrightarrow> fst (main w) = Threw SyntaxError" using m by simp
  have s: "(\<exists>e. fst (main w) = Threw e) \<and> snd (main w) = init_state w"
    using m main_config_fails [of w] by (cases "config_ok w") auto
  show "\<exists>e. fst (main w) = Threw e" using s by simp
  show "exit_code (fst (main w)) = Some 1" using s by (auto simp: exit_code_def)
  show "st_disk (snd (main w)) = disk w" using s by (simp add: init_state_def)
  show "st_trace (snd (main w)) = []" using s by (simp add: init_state_def)
qed

lemma parse_brace: "JSON_parse ''{'' = None"
  by code_simp

lemma config_ok_example: "config_ok w_example"
  unfolding w_example_def by code_simp

theorem loadProgress_absent_or_unparsable_witness:
  "st_disk (init_state w_example) progressFile = None \<and>
   loadProgress w_example (init_state w_example) =
     Inr \<lparr>lastUpdated = ''T'', totalFiles = 0, migratedCount = 0, migratedFiles = []\<rparr> \<and>
   disk w_corrupt progressFile = Some ''{'' \<and> JSON_parse ''{'' = None \<and>
   fst (main w_corrupt) = Threw SyntaxError \<and>
   exit_code (fst (main w_corrupt)) = Some 1 \<and>
   st_disk (snd (main w_corrupt)) progressFile = Some ''{''"
proof -
  have c: "config_ok w_corrupt"
    using config_ok_example by (simp add: w_corrupt_def config_ok_def CONFIG_def defaultConcurrency_def)
  have d: "disk w_corrupt progressFile = Some ''{''"
    by (simp add: w_corrupt_def)
  have n: "st_disk (init_state w_example) progressFile = None"
    by (simp add: init_state_def w_example_def)
  have a: "loadProgress w_example (init_state w_example) =
      Inr \<lparr>lastUpdated = ''T'', totalFiles = 0, migratedCount = 0, migratedFiles = []\<rparr>"
    using loadProgress_absent_or_unparsable [of "init_state w_example" w_example] n
    by (simp add: now_def w_example_def)
  have b: "fst (main w_corrupt) = Threw SyntaxError \<and>
           exit_code (fst (main w_corrupt)) = Some 1 \<and>
           st_disk (snd (main w_corrupt)) = disk w_corrupt"
    using loadProgress_absent_or_unparsable [of _ w_corrupt "''{''"] c d parse_brace
    by blast
  show ?thesis using a b d n parse_brace by (simp add: exit_code_def)
qed

section \<open>Nothing left to migrate\<close>

text \<open>
  C8, as the code has it. When no piece remains, \<open>main\<close> uploads nothing, prints the
  scan result (total, already migrated, zero remaining) and the notice that all files are
  migrated, and returns: the statistics are \<open>skipped = migratedCount\<close>, zero completed,
  zero failed, and neither the final report nor a file is written.
\<close>

theorem nothing_remaining_returns_early:
  assumes "config_ok w" and "loadProgress w (init_state w) = Inr p"
    and "sdk_create w = None" and "sdk_createContext w = None"
    and "directory w (sourcePath (CONFIG w)) = Some files"
    and "remainingFiles_of p (pieceFiles_of files) = []"
  shows "fst (main w) = Returned \<and>
         st_trace (snd (main w)) =
           [ReaddirCalled (sourcePath (CONFIG w)),
            Printed (ScanResult (length (pieceFiles_of files)) (migratedCount p) 0),
            Printed AllAlreadyMigrated] \<and>
         skipped (st_stats (snd (main w))) = migratedCount p \<and>
         completed (st_stats (snd (main w))) = 0 \<and>
         failed (st_stats (snd (main w))) = 0 \<and>
         st_disk (snd (main w)) = disk w"
  using main_enumerated [OF assms(1-5)] assms(6)
  by (simp add: scanned_state_def loaded_state_def init_state_def emit_def)

lemma load_done: "loadProgress w_done (init_state w_done) = Inr p_done"
  unfolding w_done_def w_example_def p_done_def by code_simp

text \<open>
  C8 as stated fails: in the run below nothing remains, and the trace holds no final
  report.
\<close>

theorem final_summary_counterexample:
  "remainingFiles_of p_done (pieceFiles_of [''s-t00-a'', ''s-t00-b'', ''s-t00-c'', ''notes.txt'']) = [] \<and>
   fst (main w_done) = Returned \<and>
   st_trace (snd (main w_done)) =
     [ReaddirCalled ''/filecoin-storage/piece'', Printed (ScanResult 3 3 0),
      Printed AllAlreadyMigrated] \<and>
   \<not> (\<exists>t s c f m. Printed (MigrationComplete t s c f m) \<in> set (st_trace (snd (main w_done))))"
proof -
  have t: "st_trace (snd (main w_done)) =
     [ReaddirCalled ''/filecoin-storage/piece'', Printed (ScanResult 3 3 0),
      Printed AllAlreadyMigrated]"
    unfolding w_done_def w_example_def p_done_def by code_simp
  have r: "remainingFiles_of p_done
      (pieceFiles_of [''s-t00-a'', ''s-t00-b'', ''s-t00-c'', ''notes.txt'']) = []"
    unfolding p_done_def by code_simp
  have o: "fst (main w_done) = Returned"
    unfolding w_done_def w_example_def p_done_def by code_simp
  show ?thesis using t r o by simp
qed

lemma config_ok_done: "config_ok w_done"
  using config_ok_example by (simp add: w_done_def config_ok_def CONFIG_def defaultConcurrency_def)

theorem nothing_remaining_returns_early_witness:
  "config_ok w_done \<and> loadProgress w_done (init_state w_done) = Inr p_done \<and>
   sdk_create w_done = None \<and> sdk_createContext w_done = None \<and>
   fst (main w_done) = Returned \<and>
   skipped (st_stats (snd (main w_done))) = 3 \<and>
   completed (st_stats (snd (main w_done))) = 0 \<and>
   failed (st_stats (snd (main w_done))) = 0"
proof -
  have s: "sdk_create w_done = None" "sdk_createContext w_done = None"
    by (simp_all add: w_done_def w_example_def)
  have d: "directory w_done (sourcePath (CONFIG w_done)) =
      Some [''s-t00-a'', ''s-t00-b'', ''s-t00-c'', ''notes.txt'']"
    by (simp add: w_done_def w_example_def CONFIG_def or_default_def)
  have r: "remainingFiles_of p_done
      (pieceFiles_of [''s-t00-a'', ''s-t00-b'', ''s-t00-c'', ''notes.txt'']) = []"
    unfolding p_done_def by code_simp
  from nothing_remaining_returns_early [OF config_ok_done load_done s d r]
  show ?thesis using config_ok_done load_done s by (simp add: p_done_def)
qed

section \<open>The batching loop\<close>

lemma slice_chunk:
  "i < length xs \<Longrightarrow> 0 < b \<Longrightarrow>
   slice xs (Some (int i)) (js_add (Some (int i)) (Some (int b))) = take b (drop i xs)"
  by (auto simp: slice_def slice_index_def js_add_def Let_def min_def simp flip: of_nat_add)

lemma make_batches_chunks:
  "0 < b \<Longrightarrow>
   \<exists>bs. make_batches (Some (int b)) xs (Some (int i)) = Some bs \<and> concat bs = drop i xs"
proof (induction "length xs - i" arbitrary: i rule: less_induct)
  case less
  show ?case
  proof (cases "i < length xs")
    case False
    then show ?thesis
      by (subst make_batches.simps) (simp add: js_less_def)
  next
    case True
    have "length xs - (i + b) < length xs - i" using True less.prems by simp
    from less.hyps [OF this less.prems]
    obtain bs where bs: "make_batches (Some (int b)) xs (Some (int (i + b))) = Some bs"
      and c: "concat bs = drop (i + b) xs" by blast
    have j: "js_add (Some (int i)) (Some (int b)) = Some (int (i + b))"
      by (simp add: js_add_def)
    have "make_batches (Some (int b)) xs (Some (int i)) = Some (take b (drop i xs) # bs)"
      using True bs slice_chunk [OF True less.prems] j
      by (subst make_batches.simps) (simp add: js_less_def)
    moreover have "concat (take b (drop i xs) # bs) = drop i xs"
      using c by (simp add: add.commute [of i b] flip: drop_drop)
    ultimately show ?thesis by blast
  qed
qed

lemma make_batches_NaN:
  "xs \<noteq> [] \<Longrightarrow> make_batches None xs (Some 0) = Some [[]]"
  apply (subst make_batches.simps)
  apply (subst make_batches.simps)
  apply (simp add: js_less_def js_add_def slice_def slice_index_def)
  done

lemma make_batches_no_result:
  assumes "make_batches bs xs i = Some r"
  shows "\<not> (\<exists>b k. bs = Some b \<and> i = Some k \<and> b \<le> 0 \<and> k \<le> 0 \<and> xs \<noteq> [])"
proof (rule make_batches.raw_induct
    [where P = "\<lambda>bs xs i r. \<not> (\<exists>b k. bs = Some b \<and> i = Some k \<and> b \<le> 0 \<and> k \<le> 0 \<and> xs \<noteq> [])",
      OF _ assms])
  fix f :: "int option \<Rightarrow> string list \<Rightarrow> int option \<Rightarrow> string list list option"
  fix bs xs i r
  assume IH: "\<And>bs' xs' i' y. f bs' xs' i' = Some y \<Longrightarrow>
      \<not> (\<exists>b k. bs' = Some b \<and> i' = Some k \<and> b \<le> 0 \<and> k \<le> 0 \<and> xs' \<noteq> [])"
  assume step: "(if js_less i (Some (int (length xs)))
      then Option.bind (f bs xs (js_add i bs)) (\<lambda>batches. Some (slice xs i (js_add i bs) # batches))
      else Some []) = Some r"
  show "\<not> (\<exists>b k. bs = Some b \<and> i = Some k \<and> b \<le> 0 \<and> k \<le> 0 \<and> xs \<noteq> [])"
  proof
    assume "\<exists>b k. bs = Some b \<and> i = Some k \<and> b \<le> 0 \<and> k \<le> 0 \<and> xs \<noteq> []"
    then obtain b k where h: "bs = Some b" "i = Some k" "b \<le> 0" "k \<le> 0" "xs \<noteq> []"
      by blast
    have "k < int (length xs)" using h by (cases xs) auto
    with step h obtain r' where "f bs xs (js_add i bs) = Some r'"
      by (auto simp: js_less_def split: if_splits bind_splits)
    from IH [OF this]
    have "\<not> (\<exists>b' k'. bs = Some b' \<and> js_add i bs = Some k' \<and> b' \<le> 0 \<and> k' \<le> 0 \<and> xs \<noteq> [])" .
    moreover have "js_add i bs = Some (k + b)" using h by (simp add: js_add_def)
    ultimately show False using h by simp
  qed
qed

lemma make_batches_diverges:
  "b \<le> 0 \<Longrightarrow> xs \<noteq> [] \<Longrightarrow> make_batches (Some b) xs (Some 0) = None"
  using make_batches_no_result [of "Some b" xs "Some 0"]
  by (cases "make_batches (Some b) xs (Some 0)") auto

lemma make_batches_result:
  assumes "make_batches bs xs (Some 0) = Some r" and "xs \<noteq> []"
  shows "concat r = xs \<or> concat r = []"
proof (cases bs)
  case None
  then show ?thesis using assms make_batches_NaN [of xs] by auto
next
  case (Some b)
  show ?thesis
  proof (cases "0 < b")
    case True
    then obtain n where n: "b = int n" "0 < n"
      using zero_less_imp_eq_int by blast
    from make_batches_chunks [OF n(2), of xs 0] show ?thesis
      using assms Some n by simp
  next
    case False
    then show ?thesis using make_batches_diverges [of b xs] assms Some by simp
  qed
qed

section \<open>What tasks, batches and the report do to the state\<close>

lemma map_filter_append: "List.map_filter g (xs @ ys) = List.map_filter g xs @ List.map_filter g ys"
  by (simp add: List.map_filter_def)

lemma obs_emit:
  "settled (st_trace (emit e st)) = settled (st_trace st) @ (case item_of e of None \<Rightarrow> [] | Some f \<Rightarrow> [f])"
  "uploads (st_trace (emit e st)) =
     uploads (st_trace st) @ (case e of UploadCalled f \<Rightarrow> [f] | _ \<Rightarrow> [])"
  "saved (st_trace (emit e st)) =
     saved (st_trace st) @ (case e of ProgressSaved p \<Rightarrow> [p] | _ \<Rightarrow> [])"
  "error_logs (st_trace (emit e st)) =
     error_logs (st_trace st) @ (case e of ErrorLogWritten es \<Rightarrow> [es] | _ \<Rightarrow> [])"
  by (auto simp: emit_def settled_def uploads_def saved_def error_logs_def map_filter_append
      split: option.splits event.splits)

lemma emit_fields [simp]:
  "st_stats (emit e st) = st_stats st" "st_progress (emit e st) = st_progress st"
  "st_disk (emit e st) = st_disk st"
  by (simp_all add: emit_def)

lemma trace_updates [simp]:
  "st_trace (st\<lparr>st_stats := s\<rparr>) = st_trace st" "st_trace (st\<lparr>st_progress := p\<rparr>) = st_trace st"
  "st_trace (st\<lparr>st_disk := d\<rparr>) = st_trace st"
  by simp_all

lemma task_obs:
  "settled (st_trace (task w f st)) = settled (st_trace st) @ [f]"
  "uploads (st_trace (task w f st)) =
     uploads (st_trace st) @ (case attempt_of w f of ReadFails m \<Rightarrow> [] | _ \<Rightarrow> [f])"
  "saved (st_trace (task w f st)) = saved (st_trace st)"
  "error_logs (st_trace (task w f st)) = error_logs (st_trace st)"
  "st_disk (task w f st) = st_disk st"
  by (cases "attempt_of w f";
      simp add: task_def task_ok_def task_catch_def Let_def obs_emit)+

lemma task_failed:
  "failed (st_stats (task w f st)) = failed (st_stats st) + (if counts_failed w f then 1 else 0)"
  by (cases "attempt_of w f")
     (simp_all add: task_def task_ok_def task_catch_def Let_def counts_failed_def classify_def
        failure_of_def)


lemma run_tasks_simps [simp]:
  "run_tasks w [] st = st" "run_tasks w (f # fs) st = run_tasks w fs (task w f st)"
  by (simp_all add: run_tasks_def)

lemma run_batches_simps [simp]:
  "run_batches w [] st = st" "run_batches w (b # bs) st = run_batches w bs (run_batch w b st)"
  by (simp_all add: run_batches_def)

lemma run_tasks_obs:
  "settled (st_trace (run_tasks w fs st)) = settled (st_trace st) @ fs"
  "uploads (st_trace (run_tasks w fs st)) = uploads (st_trace st) @ filter (read_ok w) fs"
  "saved (st_trace (run_tasks w fs st)) = saved (st_trace st)"
  "error_logs (st_trace (run_tasks w fs st)) = error_logs (st_trace st)"
  "st_disk (run_tasks w fs st) = st_disk st"
  "failed (st_stats (run_tasks w fs st)) =
     failed (st_stats st) + length (filter (counts_failed w) fs)"
  by (induction fs arbitrary: st;
      simp add: task_obs task_failed read_ok_def split: attempt.splits)+

lemma saveProgress_obs:
  "settled (st_trace (saveProgress st)) = settled (st_trace st)"
  "uploads (st_trace (saveProgress st)) = uploads (st_trace st)"
  "saved (st_trace (saveProgress st)) = saved (st_trace st) @ [st_progress st]"
  "error_logs (st_trace (saveProgress st)) = error_logs (st_trace st)"
  "st_stats (saveProgress st) = st_stats st"
  "st_progress (saveProgress st) = st_progress st"
  by (simp_all add: saveProgress_def obs_emit)

lemma run_batch_obs:
  "settled (st_trace (run_batch w b st)) = settled (st_trace st) @ settle_order w b"
  "uploads (st_trace (run_batch w b st)) =
     uploads (st_trace st) @ filter (read_ok w) (settle_order w b)"
  "error_logs (st_trace (run_batch w b st)) = error_logs (st_trace st)"
  "failed (st_stats (run_batch w b st)) =
     failed (st_stats st) + length (filter (counts_failed w) (settle_order w b))"
  by (simp_all add: run_batch_def Let_def saveProgress_obs run_tasks_obs)

lemma run_batches_obs:
  "settled (st_trace (run_batches w bs st)) =
     settled (st_trace st) @ concat (map (settle_order w) bs)"
  "uploads (st_trace (run_batches w bs st)) =
     uploads (st_trace st) @ filter (read_ok w) (concat (map (settle_order w) bs))"
  "error_logs (st_trace (run_batches w bs st)) = error_logs (st_trace st)"
  "failed (st_stats (run_batches w bs st)) =
     failed (st_stats st) + length (filter (counts_failed w) (concat (map (settle_order w) bs)))"
  by (induction bs arbitrary: st; simp add: run_batch_obs)+

lemma report_obs:
  "settled (st_trace (report st)) = settled (st_trace st)"
  "uploads (st_trace (report st)) = uploads (st_trace st)"
  "error_logs (st_trace (report st)) =
     error_logs (st_trace st) @ (if failed (st_stats st) > 0 then [errors (st_stats st)] else [])"
  "saved (st_trace (report st)) = saved (st_trace st) @ [st_progress st]"
  by (simp_all add: report_def Let_def saveProgress_obs obs_emit)

lemma set_settle_order [simp]:
  "set (settle_order w b) = set b" "distinct (settle_order w b) = distinct b"
  by (simp_all add: settle_order_def)

lemma set_concat_settle: "set (concat (map (settle_order w) bs)) = set (concat bs)"
  by simp

lemma scanned_obs:
  "settled (st_trace (scanned_state w p files)) = []"
  "uploads (st_trace (scanned_state w p files)) = []"
  "saved (st_trace (scanned_state w p files)) = []"
  "error_logs (st_trace (scanned_state w p files)) = []"
  "failed (st_stats (scanned_state w p files)) = 0"
  "st_progress (scanned_state w p files) = p"
  by (simp_all add: scanned_state_def loaded_state_def init_state_def settled_def uploads_def
      saved_def error_logs_def)

lemma migrate_cases:
  assumes "xs \<noteq> []"
  obtains
    (throws) m where "migrate w xs st = (Threw (TypeError m), entered st)"
      and "\<not> pLimit_ok (concurrency (CONFIG w))"
  | (diverges) "migrate w xs st = (Diverges, entered st)"
      and "pLimit_ok (concurrency (CONFIG w))"
  | (returns) bs where "migrate w xs st =
        (Returned, report (run_batches w bs (entered st)))"
      and "pLimit_ok (concurrency (CONFIG w))"
      and "concat bs = xs \<or> concat bs = []"
proof (cases "pLimit_ok (concurrency (CONFIG w))")
  case False
  then show ?thesis using throws by (simp add: migrate_def Let_def entered_def)
next
  case True
  show ?thesis
  proof (cases "make_batches (batchSize (CONFIG w)) xs (Some 0)")
    case None
    then show ?thesis using diverges True by (simp add: migrate_def Let_def entered_def)
  next
    case (Some bs)
    then show ?thesis
      using returns [of bs] True make_batches_result [OF Some assms]
      by (simp add: migrate_def Let_def run_batches_def entered_def)
  qed
qed

lemma entered_obs:
  "st_trace (entered st) = st_trace st" "st_stats (entered st) = st_stats st"
  "migratedFiles (st_progress (entered st)) = migratedFiles (st_progress st)"
  "migratedCount (st_progress (entered st)) = migratedCount (st_progress st)"
  by (simp_all add: entered_def)

lemma migrate_positive:
  assumes "pLimit_ok (concurrency (CONFIG w))" and "batchSize (CONFIG w) = Some b" and "0 < b"
  shows "\<exists>bs. migrate w xs st = (Returned, report (run_batches w bs (entered st))) \<and> concat bs = xs"
proof -
  obtain n where n: "b = int n" "0 < n"
    using assms(3) zero_less_imp_eq_int by blast
  from make_batches_chunks [OF n(2), of xs 0] obtain bs
    where "make_batches (Some (int n)) xs (Some 0) = Some bs" "concat bs = xs" by auto
  then show ?thesis
    using assms n
    by (intro exI [of _ bs]) (simp add: migrate_def Let_def run_batches_def entered_def)
qed

section \<open>How main ends\<close>

lemma main_cases:
  obtains
    (early) e where "fst (main w) = Threw e" and "\<And>p files. \<not> reaches_scan w p files"
      and "settled (st_trace (snd (main w))) = []" and "uploads (st_trace (snd (main w))) = []"
      and "saved (st_trace (snd (main w))) = []" and "error_logs (st_trace (snd (main w))) = []"
      and "st_disk (snd (main w)) = disk w"
  | (scan) p files where "reaches_scan w p files"
proof (cases "\<exists>p files. reaches_scan w p files")
  case True
  then show ?thesis using scan by blast
next
  case False
  have obs0: "settled [] = []" "uploads [] = []" "saved [] = []" "error_logs [] = []"
    "\<And>x. settled [ReaddirCalled x] = []" "\<And>x. uploads [ReaddirCalled x] = []"
    "\<And>x. saved [ReaddirCalled x] = []" "\<And>x. error_logs [ReaddirCalled x] = []"
    by (simp_all add: settled_def uploads_def saved_def error_logs_def)
  have "\<exists>e. main w = (Threw e, init_state w) \<or>
            (\<exists>p. main w = (Threw e, loaded_state w p)) \<or>
            (\<exists>p. main w = (Threw e, emit (ReaddirCalled (sourcePath (CONFIG w))) (loaded_state w p)))"
  proof (cases "config_ok w")
    case False
    then show ?thesis using main_config_fails [of w] by (metis prod.collapse)
  next
    case c: True
    show ?thesis
    proof (cases "loadProgress w (init_state w)")
      case (Inl e)
      then show ?thesis using main_load_fails [OF c] by blast
    next
      case (Inr p)
      show ?thesis
      proof (cases "sdk_create w")
        case (Some m)
        then show ?thesis using main_create_fails [OF c Inr] by blast
      next
        case n1: None
        show ?thesis
        proof (cases "sdk_createContext w")
          case (Some m)
          then show ?thesis using main_context_fails [OF c Inr n1] by blast
        next
          case n2: None
          show ?thesis
          proof (cases "directory w (sourcePath (CONFIG w))")
            case None
            then show ?thesis using main_readdir_fails [OF c Inr n1 n2] by blast
          next
            case (Some files)
            then have "reaches_scan w p files"
              using c Inr n1 n2 by (simp add: reaches_scan_def)
            then show ?thesis using False by blast
          qed
        qed
      qed
    qed
  qed
  then obtain e where
    "main w = (Threw e, init_state w) \<or>
     (\<exists>p. main w = (Threw e, loaded_state w p)) \<or>
     (\<exists>p. main w = (Threw e, emit (ReaddirCalled (sourcePath (CONFIG w))) (loaded_state w p)))"
    by blast
  then show ?thesis
    using early [of e] False obs0
    by (auto simp: loaded_state_def init_state_def emit_def)
qed

lemma main_scan:
  assumes "reaches_scan w p files"
  shows "main w =
     (if remainingFiles_of p (pieceFiles_of files) = []
      then (Returned, emit (Printed AllAlreadyMigrated) (scanned_state w p files))
      else migrate w (remainingFiles_of p (pieceFiles_of files)) (scanned_state w p files))"
  using assms main_enumerated [of w p files] by (simp add: reaches_scan_def)


section \<open>Runs that scan the source\<close>

lemma error_logs_nonempty:
  "(error_logs t \<noteq> []) = (\<exists>es. ErrorLogWritten es \<in> set t)"
proof (induction t)
  case Nil
  then show ?case by (simp add: error_logs_def)
next
  case (Cons e t)
  then show ?case
    by (cases e) (auto simp: error_logs_def List.map_filter_simps)
qed

lemma uploads_member: "(f \<in> set (uploads t)) = (UploadCalled f \<in> set t)"
proof (induction t)
  case Nil
  then show ?case by (simp add: uploads_def)
next
  case (Cons e t)
  then show ?case
    by (cases e) (auto simp: uploads_def List.map_filter_simps)
qed


lemma length_concat_settle:
  "length (concat (map (settle_order w) bs)) = length (concat bs)"
  by (induction bs) (simp_all add: settle_order_def)

lemma main_returned_obs:
  assumes "reaches_scan w p files"
  shows "set (settled (st_trace (snd (main w)))) \<subseteq> set (remainingFiles_of p (pieceFiles_of files))"
    and "uploads (st_trace (snd (main w))) = filter (read_ok w) (settled (st_trace (snd (main w))))"
    and "(error_logs (st_trace (snd (main w))) \<noteq> []) =
           (\<exists>f \<in> set (settled (st_trace (snd (main w)))). counts_failed w f)"
proof -
  let ?xs = "remainingFiles_of p (pieceFiles_of files)"
  let ?st = "scanned_state w p files"
  have e: "settled (st_trace (emit (Printed AllAlreadyMigrated) ?st)) = []"
    "uploads (st_trace (emit (Printed AllAlreadyMigrated) ?st)) = []"
    "error_logs (st_trace (emit (Printed AllAlreadyMigrated) ?st)) = []"
    by (simp_all add: obs_emit scanned_obs)
  have en: "settled (st_trace (entered ?st)) = []" "uploads (st_trace (entered ?st)) = []"
    "error_logs (st_trace (entered ?st)) = []" "failed (st_stats (entered ?st)) = 0"
    by (simp_all add: entered_obs scanned_obs)
  have all: "set (settled (st_trace (snd (main w)))) \<subseteq> set ?xs \<and>
     uploads (st_trace (snd (main w))) = filter (read_ok w) (settled (st_trace (snd (main w)))) \<and>
     ((error_logs (st_trace (snd (main w))) \<noteq> []) =
           (\<exists>f \<in> set (settled (st_trace (snd (main w)))). counts_failed w f))"
  proof (cases "?xs = []")
    case True
    then show ?thesis using main_scan [OF assms] e by simp
  next
    case False
    then have m: "main w = migrate w ?xs ?st" using main_scan [OF assms] by simp
    from False show ?thesis
    proof (cases rule: migrate_cases [of ?xs w ?st])
      case (throws msg)
      then show ?thesis using m en by simp
    next
      case diverges
      then show ?thesis using m en by simp
    next
      case (returns bs)
      have "set (concat bs) \<subseteq> set ?xs"
        using returns(3) by (metis empty_iff empty_set subsetI subset_refl)
      then have "set (concat (map (settle_order w) bs)) \<subseteq> set ?xs"
        unfolding set_concat_settle .
      moreover have "(0 < length (filter (counts_failed w) (concat (map (settle_order w) bs)))) =
          (\<exists>f \<in> set (concat (map (settle_order w) bs)). counts_failed w f)"
        by (simp add: filter_empty_conv del: set_concat)
      ultimately show ?thesis
        using m returns(1) en
        by (simp add: report_obs run_batches_obs del: set_concat)
    qed
  qed
  show "set (settled (st_trace (snd (main w)))) \<subseteq> set ?xs" using all by blast
  show "uploads (st_trace (snd (main w))) = filter (read_ok w) (settled (st_trace (snd (main w))))"
    using all by blast
  show "(error_logs (st_trace (snd (main w))) \<noteq> []) =
           (\<exists>f \<in> set (settled (st_trace (snd (main w)))). counts_failed w f)"
    using all by blast
qed


lemma main_positive:
  assumes "reaches_scan w p files" and "pLimit_ok (concurrency (CONFIG w))"
    and "batchSize (CONFIG w) = Some b" and "0 < b"
  shows "fst (main w) = Returned \<and>
         set (settled (st_trace (snd (main w)))) = set (remainingFiles_of p (pieceFiles_of files)) \<and>
         length (settled (st_trace (snd (main w)))) = length (remainingFiles_of p (pieceFiles_of files))"
proof (cases "remainingFiles_of p (pieceFiles_of files) = []")
  case True
  then show ?thesis using main_scan [OF assms(1)] by (simp add: obs_emit scanned_obs)
next
  case False
  let ?xs = "remainingFiles_of p (pieceFiles_of files)"
  from migrate_positive [OF assms(2-4), of ?xs "scanned_state w p files"]
  obtain bs where m: "migrate w ?xs (scanned_state w p files) =
      (Returned, report (run_batches w bs (entered (scanned_state w p files))))"
    and c: "concat bs = ?xs" by blast
  have "set (concat (map (settle_order w) bs)) = set ?xs"
    unfolding set_concat_settle using c by simp
  then show ?thesis
    using False main_scan [OF assms(1)] m c length_concat_settle [of w bs]
    by (simp add: report_obs run_batches_obs entered_obs scanned_obs del: set_concat)
qed

text \<open>
  C4. In a run that scans the source, the remaining files are the piece files whose
  name is not in the loaded \<open>migratedFiles\<close>, in the order of the listing; every upload
  the run makes is of a remaining file, so never of a name in \<open>migratedFiles\<close>; every
  task is of a remaining file, and with a positive batch size every remaining file gets
  its task, once.
\<close>

theorem upload_only_remaining:
  assumes "reaches_scan w p files"
  shows "remainingFiles_of p (pieceFiles_of files) =
           filter (\<lambda>f. f \<notin> set (migratedFiles p)) (pieceFiles_of files) \<and>
         set (remainingFiles_of p (pieceFiles_of files)) =
           set (pieceFiles_of files) - set (migratedFiles p) \<and>
         (\<forall>f. UploadCalled f \<in> set (st_trace (snd (main w))) \<longrightarrow>
            f \<in> set (remainingFiles_of p (pieceFiles_of files)) \<and> f \<notin> set (migratedFiles p)) \<and>
         set (settled (st_trace (snd (main w)))) \<subseteq> set (remainingFiles_of p (pieceFiles_of files)) \<and>
         (pLimit_ok (concurrency (CONFIG w)) \<and> (\<exists>b. batchSize (CONFIG w) = Some b \<and> 0 < b) \<longrightarrow>
            set (settled (st_trace (snd (main w)))) = set (remainingFiles_of p (pieceFiles_of files)) \<and>
            length (settled (st_trace (snd (main w)))) =
              length (remainingFiles_of p (pieceFiles_of files)))"
proof -
  have r: "remainingFiles_of p (pieceFiles_of files) =
           filter (\<lambda>f. f \<notin> set (migratedFiles p)) (pieceFiles_of files)"
    by (simp add: remainingFiles_of_def Set_has_def)
  have s: "set (settled (st_trace (snd (main w)))) \<subseteq> set (remainingFiles_of p (pieceFiles_of files))"
    using main_returned_obs(1) [OF assms] .
  have "set (uploads (st_trace (snd (main w)))) \<subseteq> set (remainingFiles_of p (pieceFiles_of files))"
    using main_returned_obs(1,2) [OF assms] by auto
  then have u: "\<forall>f. UploadCalled f \<in> set (st_trace (snd (main w))) \<longrightarrow>
            f \<in> set (remainingFiles_of p (pieceFiles_of files)) \<and> f \<notin> set (migratedFiles p)"
    using r by (auto simp: uploads_member)
  have a: "pLimit_ok (concurrency (CONFIG w)) \<and> (\<exists>b. batchSize (CONFIG w) = Some b \<and> 0 < b) \<longrightarrow>
            set (settled (st_trace (snd (main w)))) = set (remainingFiles_of p (pieceFiles_of files)) \<and>
            length (settled (st_trace (snd (main w)))) =
              length (remainingFiles_of p (pieceFiles_of files))"
    using main_positive [OF assms] by blast
  have "set (remainingFiles_of p (pieceFiles_of files)) =
           set (pieceFiles_of files) - set (migratedFiles p)"
    using r by auto
  with r u s a show ?thesis by blast
qed

text \<open>
  C5, as the code has it. The error log is written exactly when \<open>stats.failed\<close> is
  positive at the report, that is when some task of the run ended as a permanent skip or
  as a transient failure.
\<close>

theorem error_log_iff_failed:
  "(\<exists>es. ErrorLogWritten es \<in> set (st_trace (snd (main w)))) =
   (\<exists>f \<in> set (settled (st_trace (snd (main w)))).
      classify (attempt_of w f) = PermanentSkip \<or> classify (attempt_of w f) = TransientFailure)"
proof (cases rule: main_cases [of w])
  case (early e)
  then show ?thesis by (simp flip: error_logs_nonempty)
next
  case (scan p files)
  then show ?thesis
    using main_returned_obs(3) [OF scan]
    by (simp add: counts_failed_def flip: error_logs_nonempty)
qed



section \<open>The example run\<close>

lemma scan_example:
  "reaches_scan w_example p_fresh [''s-t00-a'', ''s-t00-b'', ''s-t00-c'', ''notes.txt'']"
  unfolding w_example_def p_fresh_def by code_simp

lemma trace_example:
  "st_trace (snd (main w_example)) =
     [ReaddirCalled ''/filecoin-storage/piece'', Printed (ScanResult 3 0 3),
      UploadCalled ''s-t00-a'', Printed (ItemUploaded ''s-t00-a'' ''cid''),
      UploadCalled ''s-t00-b'', Printed (ItemSkipped ''s-t00-b''),
      ProgressSaved \<lparr>lastUpdated = ''T'', totalFiles = 3, migratedCount = 1,
                      migratedFiles = [''s-t00-a'', ''s-t00-b'']\<rparr>,
      UploadCalled ''s-t00-c'', Printed (ItemUploaded ''s-t00-c'' ''cid''),
      ProgressSaved \<lparr>lastUpdated = ''T'', totalFiles = 3, migratedCount = 2,
                      migratedFiles = [''s-t00-a'', ''s-t00-b'', ''s-t00-c'']\<rparr>,
      Printed (MigrationComplete 3 0 2 1 2),
      ErrorLogWritten [\<lparr>e_file = ''s-t00-b'',
                         e_error = ''FILE_TOO_LARGE: File size 300 exceeds maximum allowed size'',
                         e_timestamp = ''T''\<rparr>],
      Printed ErrorLogSaved,
      ProgressSaved \<lparr>lastUpdated = ''T'', totalFiles = 3, migratedCount = 2,
                      migratedFiles = [''s-t00-a'', ''s-t00-b'', ''s-t00-c'']\<rparr>]"
  unfolding w_example_def by code_simp

theorem upload_only_remaining_witness:
  "reaches_scan w_example p_fresh [''s-t00-a'', ''s-t00-b'', ''s-t00-c'', ''notes.txt''] \<and>
   remainingFiles_of p_fresh (pieceFiles_of [''s-t00-a'', ''s-t00-b'', ''s-t00-c'', ''notes.txt'']) =
     [''s-t00-a'', ''s-t00-b'', ''s-t00-c''] \<and>
   UploadCalled ''s-t00-b'' \<in> set (st_trace (snd (main w_example))) \<and>
   ''s-t00-b'' \<in> set (remainingFiles_of p_fresh
      (pieceFiles_of [''s-t00-a'', ''s-t00-b'', ''s-t00-c'', ''notes.txt'']))"
proof -
  have r: "remainingFiles_of p_fresh
      (pieceFiles_of [''s-t00-a'', ''s-t00-b'', ''s-t00-c'', ''notes.txt'']) =
     [''s-t00-a'', ''s-t00-b'', ''s-t00-c'']"
    unfolding p_fresh_def by code_simp
  have u: "UploadCalled ''s-t00-b'' \<in> set (st_trace (snd (main w_example)))"
    by (simp add: trace_example)
  from upload_only_remaining [OF scan_example] u
  have "''s-t00-b'' \<in> set (remainingFiles_of p_fresh
      (pieceFiles_of [''s-t00-a'', ''s-t00-b'', ''s-t00-c'', ''notes.txt'']))"
    by blast
  then show ?thesis using scan_example r u by blast
qed

text \<open>
  C5 as stated fails: in the example run no task ends as a transient failure (the
  second piece is a permanent skip), and the error log is written.
\<close>

theorem error_log_without_transient_counterexample:
  "(\<exists>es. ErrorLogWritten es \<in> set (st_trace (snd (main w_example)))) \<and>
   settled (st_trace (snd (main w_example))) = [''s-t00-a'', ''s-t00-b'', ''s-t00-c''] \<and>
   classify (attempt_of w_example ''s-t00-a'') = Success \<and>
   classify (attempt_of w_example ''s-t00-b'') = PermanentSkip \<and>
   classify (attempt_of w_example ''s-t00-c'') = Success \<and>
   \<not> (\<exists>f \<in> set (settled (st_trace (snd (main w_example)))).
         classify (attempt_of w_example f) = TransientFailure)"
proof -
  have s: "settled (st_trace (snd (main w_example))) = [''s-t00-a'', ''s-t00-b'', ''s-t00-c'']"
    by (simp add: trace_example settled_def List.map_filter_simps)
  have c: "classify (attempt_of w_example ''s-t00-a'') = Success"
    "classify (attempt_of w_example ''s-t00-b'') = PermanentSkip"
    "classify (attempt_of w_example ''s-t00-c'') = Success"
    unfolding w_example_def by code_simp+
  have "\<exists>es. ErrorLogWritten es \<in> set (st_trace (snd (main w_example)))"
    by (simp add: trace_example)
  then show ?thesis using s c by simp
qed



section \<open>The count and the set, in every saved record\<close>




















section \<open>Signals\<close>



section \<open>Reading back what was written\<close>

lemma digit_cases: "d < 10 \<Longrightarrow> d \<in> {0, 1, 2, 3, 4, 5, 6, 7, 8, 9 :: nat}"
  by auto

lemma digit_char:
  assumes "d < 10"
  shows "is_digit (char_of (48 + d))" and "digit_val (char_of (48 + d)) = d"
    and "char_of (48 + d) = CHR ''0'' \<longleftrightarrow> d = 0"
proof -
  show "is_digit (char_of (48 + d))"
    using digit_cases [OF assms] by (auto simp: is_digit_def char_of_eq_iff)
  show "digit_val (char_of (48 + d)) = d"
    using assms by (simp add: digit_val_def)
  show "char_of (48 + d) = CHR ''0'' \<longleftrightarrow> d = 0"
    using assms by (simp add: char_of_eq_iff take_bit_eq_mod)
qed

lemma show_nat_digits: "list_all is_digit (show_nat n) \<and> show_nat n \<noteq> []"
proof (induction n rule: show_nat.induct)
  case (1 n)
  show ?case
  proof (cases "n < 10")
    case True
    then show ?thesis by (subst show_nat.simps, subst show_nat.simps) (simp add: digit_char)
  next
    case False
    then show ?thesis
      using 1 by (subst show_nat.simps, subst (2) show_nat.simps) (simp add: digit_char)
  qed
qed

lemma show_nat_value: "foldl (\<lambda>a c. a * 10 + digit_val c) 0 (show_nat n) = n"
proof (induction n rule: show_nat.induct)
  case (1 n)
  show ?case
  proof (cases "n < 10")
    case True
    then show ?thesis by (subst show_nat.simps) (simp add: digit_char)
  next
    case False
    then show ?thesis
      using 1 by (subst show_nat.simps) (simp add: digit_char)
  qed
qed

lemma show_nat_leading: "show_nat n = d # ds \<Longrightarrow> d = CHR ''0'' \<Longrightarrow> ds = []"
proof (induction n arbitrary: d ds rule: show_nat.induct)
  case (1 n)
  show ?case
  proof (cases "n < 10")
    case True
    then show ?thesis using "1.prems" by (subst (asm) show_nat.simps) simp
  next
    case False
    obtain e es where e: "show_nat (n div 10) = e # es"
      using show_nat_digits [of "n div 10"] by (cases "show_nat (n div 10)") auto
    have d: "d = e" using "1.prems"(1) False e by (subst (asm) show_nat.simps) simp
    have "es = []" using "1.IH" [OF False e] d "1.prems"(2) by simp
    then have "show_nat (n div 10) = ''0''" using e d "1.prems"(2) by simp
    moreover have "show_nat (n div 10) \<noteq> ''0''"
    proof -
      have "foldl (\<lambda>a c. a * 10 + digit_val c) 0 (show_nat (n div 10)) = n div 10"
        by (rule show_nat_value)
      moreover have "n div 10 \<noteq> 0" using False by simp
      ultimately show ?thesis by (auto simp: digit_val_def)
    qed
    ultimately show ?thesis by simp
  qed
qed

lemma hex_table: "list_all (\<lambda>n. hex_val (hex_digit n) = Some n) [0..<16]"
  by code_simp

lemma hex_val_hex_digit: "hex_val (hex_digit n) = Some (n mod 16)"
proof -
  have "n mod 16 \<in> set [0..<16]" by simp
  then have "hex_val (hex_digit (n mod 16)) = Some (n mod 16)"
    using hex_table unfolding list_all_iff by blast
  then show ?thesis by (simp add: hex_digit_def)
qed

lemma hex_val_0: "hex_val (CHR ''0'') = Some 0"
  by (simp add: hex_val_def is_digit_def digit_val_def)

lemma quote_char_lex:
  assumes "lex_string r = Some (s, rest)"
  shows "lex_string (quote_char c @ r) = Some (c # s, rest)"
proof -
  have u: "(of_char c :: nat) < 32 \<Longrightarrow>
      unicode_escape (CHR ''0'') (CHR ''0'') (hex_digit (of_char c div 16)) (hex_digit (of_char c)) =
        Some c"
  proof -
    assume "(of_char c :: nat) < 32"
    then have "(of_char c :: nat) div 16 mod 16 = of_char c div 16" by simp
    then show ?thesis
      by (simp add: unicode_escape_def hex_val_hex_digit hex_val_0)
  qed
  show ?thesis
    using assms u by (simp add: quote_char_def unescape_def)
qed

lemma lex_string_quoted:
  "lex_string (concat (map quote_char s) @ CHR 0x22 # rest) = Some (s, rest)"
  by (induction s) (simp_all add: quote_char_lex)

lemma tokenize_quote:
  "tokenize (quote s @ rest) = map_option (Cons (TString s)) (tokenize rest)"
  by (simp add: quote_def is_ws_def lex_string_quoted)

lemma tokenize_spaces: "tokenize (replicate k (CHR '' '') @ rest) = tokenize rest"
  by (induction k) (simp_all add: is_ws_def)

lemma tokenize_indent: "tokenize (indent d @ rest) = tokenize rest"
  by (simp add: indent_def tokenize_spaces)

lemma digit_not_special:
  "is_digit d \<Longrightarrow>
   \<not> is_ws d \<and> d \<noteq> CHR ''{'' \<and> d \<noteq> CHR ''}'' \<and> d \<noteq> CHR ''['' \<and> d \<noteq> CHR '']'' \<and>
   d \<noteq> CHR '':'' \<and> d \<noteq> CHR '','' \<and> d \<noteq> CHR 0x22 \<and> d \<noteq> CHR ''-''"
  by (auto simp: is_digit_def is_ws_def)

lemma comma_plain:
  "\<not> is_digit (CHR '','')" "\<not> is_ws (CHR '','')"
  by (simp_all add: is_digit_def is_ws_def)

lemma takeWhile_digits:
  "list_all is_digit ds \<Longrightarrow> takeWhile is_digit (ds @ CHR '','' # rest) = ds"
  "list_all is_digit ds \<Longrightarrow> dropWhile is_digit (ds @ CHR '','' # rest) = CHR '','' # rest"
  by (induction ds) (simp_all add: comma_plain)

lemma lex_number_show_nat:
  "lex_number (show_nat n @ CHR '','' # rest) = Some (show_nat n, CHR '','' # rest)"
proof -
  obtain d ds where s: "show_nat n = d # ds"
    using show_nat_digits [of n] by (cases "show_nat n") auto
  have dg: "is_digit d" "list_all is_digit ds"
    using show_nat_digits [of n] s by simp_all
  have z: "d = CHR ''0'' \<Longrightarrow> ds = []"
    using show_nat_leading [OF s] .
  have i: "lex_int (d # ds @ CHR '','' # rest) = Some (d # ds, CHR '','' # rest)"
    using dg z by (auto simp: lex_int_def takeWhile_digits)
  have f: "lex_frac (CHR '','' # rest) = Some ([], CHR '','' # rest)"
    by (simp add: lex_frac_def)
  have e: "lex_exp (CHR '','' # rest) = Some ([], CHR '','' # rest)"
    by (simp add: lex_exp_def)
  show ?thesis
    using digit_not_special [OF dg(1)] i f e by (simp add: lex_number_def s)
qed

lemma tokenize_show_nat:
  "tokenize (show_nat n @ CHR '','' # rest) =
     map_option (\<lambda>ts. TNumber (show_nat n) # TComma # ts) (tokenize rest)"
proof -
  obtain d ds where s: "show_nat n = d # ds"
    using show_nat_digits [of n] by (cases "show_nat n") auto
  have dg: "is_digit d" using show_nat_digits [of n] s by simp
  have "tokenize (d # ds @ CHR '','' # rest) =
      map_option (Cons (TNumber (d # ds))) (tokenize (CHR '','' # rest))"
    using digit_not_special [OF dg] dg lex_number_show_nat [of n rest]
    by (simp add: s)
  then show ?thesis
    by (simp add: s comma_plain option.map_comp comp_def)
qed

lemma tokenize_join_quoted:
  "tokenize (join (CHR '','' # CHR 0x0A # indent d) (map quote (f # fs)) @ rest) =
     map_option (\<lambda>ts. TString f # comma_strings fs @ ts) (tokenize rest)"
proof (induction fs arbitrary: f)
  case Nil
  then show ?case by (simp add: tokenize_quote comma_strings_def)
next
  case (Cons g fs)
  have "tokenize (join (CHR '','' # CHR 0x0A # indent d) (map quote (f # g # fs)) @ rest) =
      map_option (Cons (TString f))
        (tokenize (CHR '','' # CHR 0x0A # indent d @
           join (CHR '','' # CHR 0x0A # indent d) (map quote (g # fs)) @ rest))"
    by (simp add: tokenize_quote)
  also have "\<dots> = map_option (Cons (TString f)) (map_option (Cons TComma)
      (tokenize (join (CHR '','' # CHR 0x0A # indent d) (map quote (g # fs)) @ rest)))"
    by (simp add: is_ws_def tokenize_indent)
  finally show ?case
    using Cons.IH [of g] by (simp add: option.map_comp comp_def comma_strings_def)
qed

lemma pda_run_elements:
  "pda_run (comma_strings fs @ TRBracket # ts) (FArray es # stk) CommaOrEnd =
     (case push_value (JArray (rev es @ map JString fs)) stk of
        None \<Rightarrow> None
      | Some (stk', m) \<Rightarrow> pda_run ts stk' m)"
proof (induction fs arbitrary: es)
  case Nil
  then show ?case
    by (simp add: comma_strings_def pda_step_def close_array_def split: option.splits)
next
  case (Cons g fs)
  have "pda_run (comma_strings (g # fs) @ TRBracket # ts) (FArray es # stk) CommaOrEnd =
      pda_run (comma_strings fs @ TRBracket # ts) (FArray (JString g # es) # stk) CommaOrEnd"
    by (simp add: comma_strings_def pda_step_def pda_value_def scalar_of_def push_value_def)
  then show ?case by (simp add: Cons.IH)
qed

lemma tokenize_string_array:
  "tokenize (stringify d (JArray (map JString fs)) @ rest) =
     map_option (\<lambda>ts. array_tokens fs @ ts) (tokenize rest)"
proof (cases fs)
  case Nil
  then show ?thesis
    by (simp add: bracketed_def array_tokens_def is_ws_def option.map_comp comp_def)
next
  case (Cons f fs')
  have m: "map (stringify (Suc d) \<circ> JString) fs' = map quote fs'"
    by simp
  have "tokenize (stringify d (JArray (map JString fs)) @ rest) =
      map_option (Cons TLBracket)
        (tokenize (join (CHR '','' # CHR 0x0A # indent (Suc d)) (map quote (f # fs')) @
           CHR 0x0A # indent d @ CHR '']'' # rest))"
    by (simp add: Cons bracketed_def is_ws_def tokenize_indent m)
  also have "\<dots> = map_option (Cons TLBracket)
      (map_option (\<lambda>ts. TString f # comma_strings fs' @ ts)
         (map_option (Cons TRBracket) (tokenize rest)))"
    unfolding tokenize_join_quoted by (simp add: is_ws_def tokenize_indent)
  finally show ?thesis
    by (simp add: Cons array_tokens_def option.map_comp comp_def)
qed

lemma pda_run_string_array:
  "pda_run (array_tokens fs @ ts) stk Value =
     (case push_value (JArray (map JString fs)) stk of
        None \<Rightarrow> None
      | Some (stk', m) \<Rightarrow> pda_run ts stk' m)"
proof (cases fs)
  case Nil
  then show ?thesis
    by (simp add: array_tokens_def pda_step_def pda_value_def close_array_def
        split: option.splits)
next
  case (Cons f fs')
  have "pda_run (array_tokens fs @ ts) stk Value =
      pda_run (comma_strings fs' @ TRBracket # ts) (FArray [JString f] # stk) CommaOrEnd"
    by (simp add: Cons array_tokens_def pda_step_def pda_value_def scalar_of_def push_value_def)
  then show ?thesis by (simp add: pda_run_elements Cons)
qed

lemma tokenize_record:
  "tokenize (stringify 0 (JObject [(k1, JString l), (k2, JNumber (show_nat t)),
       (k3, JNumber (show_nat c)), (k4, JArray (map JString fs))])) =
     Some (record_tokens k1 l k2 t k3 c k4 fs)"
proof -
  have "tokenize (CHR 0x0A # indent 0 @ ''}'') = Some [TRBrace]"
    by (simp add: is_ws_def tokenize_indent)
  then show ?thesis
    by (simp add: bracketed_def is_ws_def tokenize_indent tokenize_quote tokenize_show_nat
        tokenize_string_array record_tokens_def del: stringify.simps(5))
qed

lemma pda_run_record:
  "pda_run (record_tokens k1 l k2 t k3 c k4 fs) [] Value =
     Some (JObject [(k1, JString l), (k2, JNumber (show_nat t)),
       (k3, JNumber (show_nat c)), (k4, JArray (map JString fs))])"
  by (simp add: record_tokens_def pda_step_def pda_value_def pda_key_def scalar_of_def
      push_value_def close_object_def pda_run_string_array)

lemma parse_stringify_record:
  "JSON_parse (JSON_stringify (JObject [(k1, JString l), (k2, JNumber (show_nat t)),
       (k3, JNumber (show_nat c)), (k4, JArray (map JString fs))])) =
     Some (JObject [(k1, JString l), (k2, JNumber (show_nat t)),
       (k3, JNumber (show_nat c)), (k4, JArray (map JString fs))])"
  by (simp only: JSON_parse_def JSON_stringify_def tokenize_record option.case pda_run_record)

lemma nat_of_lexeme_show_nat: "nat_of_lexeme (show_nat n) = Some n"
  using show_nat_digits [of n] by (simp add: nat_of_lexeme_def show_nat_value)

lemma foldl_Set_add_distinct:
  "distinct (S @ xs) \<Longrightarrow> foldl (\<lambda>S x. Set_add x S) S xs = S @ xs"
  by (induction xs arbitrary: S) (simp_all add: Set_add_def Set_has_def)

lemma new_Set_distinct: "distinct xs \<Longrightarrow> new_Set xs = xs"
  using foldl_Set_add_distinct [of "[]" xs] by (simp add: new_Set_def)

lemma those_strings: "those (map (string_of_json \<circ> JString) xs) = Some xs"
  by (induction xs) (simp_all add: string_of_json_def)

lemma decode_json_of_progress:
  "distinct (migratedFiles p) \<Longrightarrow> decode_progress (json_of_progress p) = Inr p"
  by (simp add: decode_progress_def json_of_progress_def set_of_iterable_def those_strings
      new_Set_distinct string_of_json_def nat_of_json_def nat_of_lexeme_show_nat Let_def)

lemma parse_json_of_progress:
  "JSON_parse (JSON_stringify (json_of_progress p)) = Some (json_of_progress p)"
  unfolding json_of_progress_def by (rule parse_stringify_record)

lemma load_after_save:
  "distinct (migratedFiles (st_progress st)) \<Longrightarrow>
   loadProgress w (saveProgress st) = Inr (st_progress st)"
  by (simp add: loadProgress_def saveProgress_def writeFile_def parse_json_of_progress
      decode_json_of_progress)

text \<open>
  C3, as the code has it. \<open>saveProgress\<close> overwrites the progress file in place.
  When the write completes, \<open>loadProgress\<close> reads the saved record back. When the
  process dies with \<open>k\<close> bytes written, the file holds the first \<open>k\<close> bytes of the new
  text and nothing of the old one; only with all bytes written is this the new version.
\<close>

theorem save_overwrites_in_place:
  "(distinct (migratedFiles (st_progress st)) \<longrightarrow>
      loadProgress w (saveProgress st) = Inr (st_progress st)) \<and>
   st_disk (saveProgress_crashed k st) progressFile =
     Some (take k (JSON_stringify (json_of_progress (st_progress st)))) \<and>
   (length (JSON_stringify (json_of_progress (st_progress st))) \<le> k \<longrightarrow>
      loadProgress w (saveProgress_crashed k st) = loadProgress w (saveProgress st))"
  by (simp add: load_after_save)
     (simp add: saveProgress_crashed_def writeFile_crashed_def loadProgress_def saveProgress_def
        writeFile_def)

theorem save_overwrites_in_place_witness:
  "distinct (migratedFiles (st_progress st_checkpoint)) \<and>
   loadProgress w_example (saveProgress st_checkpoint) = Inr q_second \<and>
   length (JSON_stringify (json_of_progress (st_progress st_checkpoint))) \<le> 200 \<and>
   loadProgress w_example (saveProgress_crashed 200 st_checkpoint) = Inr q_second"
proof -
  have d: "distinct (migratedFiles (st_progress st_checkpoint))"
    by (simp add: st_checkpoint_def q_second_def)
  have l: "length (JSON_stringify (json_of_progress (st_progress st_checkpoint))) \<le> 200"
    unfolding st_checkpoint_def q_second_def by code_simp
  have p: "st_progress st_checkpoint = q_second" by (simp add: st_checkpoint_def)
  from save_overwrites_in_place [of st_checkpoint w_example 200] d l p
  show ?thesis by simp
qed

text \<open>
  C3 as stated fails: with the record of the first batch on disk and the record of the
  second batch being saved, both versions load, but a crash after 40 bytes, or before
  the first byte, leaves a file that \<open>JSON.parse\<close> rejects.
\<close>

theorem crash_mid_save_counterexample:
  "loadProgress w_example st_checkpoint = Inr q_first \<and>
   loadProgress w_example (saveProgress st_checkpoint) = Inr q_second \<and>
   loadProgress w_example (saveProgress_crashed 40 st_checkpoint) = Inl SyntaxError \<and>
   loadProgress w_example (saveProgress_crashed 0 st_checkpoint) = Inl SyntaxError"
  unfolding st_checkpoint_def q_first_def q_second_def w_example_def by code_simp

section \<open>The classification, the error log and the signals on the example\<close>

theorem task_classification_witness:
  "classify (attempt_of w_example ''s-t00-b'') = PermanentSkip \<and>
   counted_failed ''s-t00-b'' st_example (task w_example ''s-t00-b'' st_example) \<and>
   marked_handled ''s-t00-b'' st_example (task w_example ''s-t00-b'' st_example) \<and>
   classify (attempt_of w_example ''s-t00-a'') = Success \<and>
   counted_completed st_example (task w_example ''s-t00-a'' st_example) \<and>
   marked_handled ''s-t00-a'' st_example (task w_example ''s-t00-a'' st_example)"
proof -
  have b: "classify (attempt_of w_example ''s-t00-b'') = PermanentSkip"
    unfolding w_example_def by code_simp
  have a: "classify (attempt_of w_example ''s-t00-a'') = Success"
    unfolding w_example_def by code_simp
  show ?thesis
    using task_classification [where w = w_example and f = "''s-t00-b''" and st = st_example]
      task_classification [where w = w_example and f = "''s-t00-a''" and st = st_example] a b
    by simp
qed

theorem error_log_iff_failed_witness:
  "(\<exists>es. ErrorLogWritten es \<in> set (st_trace (snd (main w_example)))) \<and>
   (\<exists>f \<in> set (settled (st_trace (snd (main w_example)))).
      classify (attempt_of w_example f) = PermanentSkip \<or>
      classify (attempt_of w_example f) = TransientFailure) \<and>
   \<not> (\<exists>es. ErrorLogWritten es \<in> set (st_trace (snd (main w_done))))"
proof -
  have e: "\<exists>es. ErrorLogWritten es \<in> set (st_trace (snd (main w_example)))"
    by (simp add: trace_example)
  have t: "st_trace (snd (main w_done)) =
     [ReaddirCalled ''/filecoin-storage/piece'', Printed (ScanResult 3 3 0),
      Printed AllAlreadyMigrated]"
    unfolding w_done_def w_example_def p_done_def by code_simp
  have n: "\<not> (\<exists>es. ErrorLogWritten es \<in> set (st_trace (snd (main w_done))))"
    by (simp add: t)
  from e error_log_iff_failed [of w_example]
  have "\<exists>f \<in> set (settled (st_trace (snd (main w_example)))).
      classify (attempt_of w_example f) = PermanentSkip \<or>
      classify (attempt_of w_example f) = TransientFailure"
    by blast
  then show ?thesis using e n by blast
qed


end
